theory Spec2Isabelle
  imports Complex_Main
begin

section \<open>Python values\<close>

text \<open>
  Protocol events are JSON objects decoded into Python values.  The functions of
  \<^verbatim>\<open>network_watchdog.py\<close> that are typed \<^verbatim>\<open>Any\<close> are modelled over this datatype;
  a dict is an association list read with \<^const>\<open>map_of\<close>.  Values of this datatype are
  finite trees, as decoded JSON is.
\<close>

datatype pyval =
    PNone
  | PBool bool
  | PInt int
  | PFloat real
  | PStr string
  | PList "pyval list"
  | PDict "(string \<times> pyval) list"

datatype py_error =
    AttributeError
  | TypeError
  | KeyError
  | ValueError
  | OtherError string

text \<open>Python truthiness, as used by \<^verbatim>\<open>x or y\<close>, \<^verbatim>\<open>while x\<close> and \<^verbatim>\<open>if x\<close>.\<close>

fun truthy :: "pyval \<Rightarrow> bool" where
  "truthy PNone = False"
| "truthy (PBool b) = b"
| "truthy (PInt i) = (i \<noteq> 0)"
| "truthy (PFloat r) = (r \<noteq> 0)"
| "truthy (PStr s) = (s \<noteq> [])"
| "truthy (PList xs) = (xs \<noteq> [])"
| "truthy (PDict kvs) = (kvs \<noteq> [])"

text \<open>\<^verbatim>\<open>d.get(k)\<close> on a dict: the value, or \<^verbatim>\<open>None\<close> when the key is absent.\<close>

definition dict_get :: "(string \<times> pyval) list \<Rightarrow> string \<Rightarrow> pyval" where
  "dict_get kvs k = (case map_of kvs k of Some v \<Rightarrow> v | None \<Rightarrow> PNone)"

text \<open>\<^verbatim>\<open>a or b\<close>.\<close>

definition py_or :: "pyval \<Rightarrow> pyval \<Rightarrow> pyval" where
  "py_or a b = (if truthy a then a else b)"

section \<open>Decimal rendering of integers\<close>

definition digit_char :: "nat \<Rightarrow> char" where
  "digit_char d = ''0123456789'' ! d"

fun str_nat :: "nat \<Rightarrow> string" where
  "str_nat n = (if n < 10 then [digit_char n] else str_nat (n div 10) @ [digit_char (n mod 10)])"

declare str_nat.simps [simp del]

text \<open>\<^verbatim>\<open>str(i)\<close> for a Python int.\<close>

definition str_int :: "int \<Rightarrow> string" where
  "str_int i = (if i < 0 then CHR ''-'' # str_nat (nat (- i)) else str_nat (nat i))"

section \<open>Entry model: \<^verbatim>\<open>NetworkLogEntry\<close>\<close>

record entry =
  request_id :: string
  url :: string
  http_method :: string
  resource_type :: string
  start_time :: real
  status :: "int option"
  status_text :: "string option"
  mime_type :: "string option"
  error_text :: "string option"
  initiator_type :: pyval
  request_headers :: "(string \<times> string) list"
  response_headers :: "(string \<times> string) list"
  request_body_preview :: "string option"
  encoded_data_length :: "real option"
  end_time :: "real option"
  stack_trace :: "pyval list"

text \<open>The property \<^verbatim>\<open>duration_ms\<close> (lines 53-57).\<close>

definition duration_ms :: "entry \<Rightarrow> real option" where
  "duration_ms e =
     (case end_time e of
        None \<Rightarrow> None
      | Some t \<Rightarrow> Some (max 0 ((t - start_time e) * 1000)))"

text \<open>
  The local \<^verbatim>\<open>status_str\<close> of \<^verbatim>\<open>to_string\<close> (line 49):
  \<^verbatim>\<open>str(self.status) if self.status else (f'FAILED({self.error_text})' if self.error_text else 'PENDING')\<close>.
  Both tests are truthiness tests: status \<^verbatim>\<open>None\<close> and status \<^verbatim>\<open>0\<close> take the else
  branch, and so do error text \<^verbatim>\<open>None\<close> and the empty error text.
\<close>

definition status_str :: "entry \<Rightarrow> string" where
  "status_str e =
     (if status e \<noteq> None \<and> status e \<noteq> Some 0 then str_int (the (status e))
      else if error_text e \<noteq> None \<and> error_text e \<noteq> Some [] then
        ''FAILED('' @ the (error_text e) @ '')''
      else ''PENDING'')"

text \<open>
  Python's \<^verbatim>\<open>format(x, '.0f')\<close>: the nearest integer, ties to the even one, in decimal; a
  negative value that rounds to zero prints as \<^verbatim>\<open>-0\<close>.  Times are modelled as reals:
  the rounding of float subtraction and multiplication, infinities and NaN are outside
  the model.
\<close>

definition round_half_even :: "real \<Rightarrow> int" where
  "round_half_even x =
     (let f = \<lfloor>x\<rfloor> in
      if x - of_int f < 1 / 2 then f
      else if 1 / 2 < x - of_int f then f + 1
      else if even f then f else f + 1)"

definition format_0f :: "real \<Rightarrow> string" where
  "format_0f x =
     (let n = round_half_even x in if x < 0 \<and> n = 0 then ''-0'' else str_int n)"

text \<open>\<^verbatim>\<open>to_string\<close> (lines 46-51).\<close>

definition to_string :: "entry \<Rightarrow> string" where
  "to_string e =
     (let duration = (case duration_ms e of
                        Some d \<Rightarrow> '' '' @ format_0f d @ ''ms''
                      | None \<Rightarrow> [])
      in ''['' @ http_method e @ ''] '' @ status_str e @ '' '' @ url e
         @ '' ('' @ resource_type e @ '')'' @ duration)"

section \<open>Bounded history store\<close>

text \<open>
  \<^verbatim>\<open>collections.deque(maxlen=n)\<close>: appending to a full deque discards items from the left
  end; with \<^verbatim>\<open>maxlen = 0\<close> the deque stays empty.
\<close>

record deque =
  maxlen :: nat
  items :: "entry list"

definition deque_append :: "deque \<Rightarrow> entry \<Rightarrow> deque" where
  "deque_append d x =
     (let ys = items d @ [x] in d\<lparr>items := drop (length ys - maxlen d) ys\<rparr>)"

text \<open>
  \<^verbatim>\<open>deque(maxlen=n)\<close> itself raises \<^verbatim>\<open>ValueError\<close> for a negative \<^verbatim>\<open>n\<close>.
\<close>

definition new_deque :: "int \<Rightarrow> py_error + deque" where
  "new_deque n = (if n < 0 then Inl ValueError else Inr \<lparr>maxlen = nat n, items = []\<rparr>)"

datatype callback = OnRequest | OnResponse | OnFailure | OnLoadingFinished

text \<open>
  The state of a \<^verbatim>\<open>NetworkWatchdog\<close> (lines 69-73), together with the callbacks that the
  protocol sessions hold for each target (\<^verbatim>\<open>session.cdp_client.register\<close>).
\<close>

record watchdog =
  max_logs_per_tab :: int
  ignored_resource_types :: "string set"
  network_logs :: "string \<rightharpoonup> deque"
  monitored_targets :: "string set"
  cdp_handlers :: "(string \<times> callback) list"

section \<open>Protocol events\<close>

text \<open>
  The events are \<^verbatim>\<open>TypedDict\<close>s of the protocol library.  A field that the handlers read
  with \<^verbatim>\<open>.get\<close> is optional here (\<^const>\<open>None\<close> when the key is absent); a field read with
  \<^verbatim>\<open>event['requestId']\<close> is required.  \<^verbatim>\<open>rq_initiator\<close> is the value of
  \<^verbatim>\<open>event.get('initiator')\<close>, \<^const>\<open>PNone\<close> when the key is absent.
\<close>

record request_data =
  rq_url :: "string option"
  rq_method :: "string option"
  rq_headers :: "(string \<times> string) list option"
  rq_postData :: "string option"

record request_will_be_sent =
  rq_requestId :: string
  rq_type :: "string option"
  rq_request :: "request_data option"
  rq_initiator :: pyval
  rq_wallTime :: "real option"

record response_data =
  rs_status :: "int option"
  rs_statusText :: "string option"
  rs_mimeType :: "string option"
  rs_headers :: "(string \<times> string) list option"
  rs_responseTime :: "real option"

record response_received =
  rr_requestId :: string
  rr_response :: "response_data option"

record loading_failed =
  lf_requestId :: string
  lf_errorText :: "string option"
  lf_timestamp :: "real option"

record loading_finished =
  fin_requestId :: string
  fin_encodedDataLength :: "real option"
  fin_timestamp :: "real option"

section \<open>Initiator stack flattening: \<^verbatim>\<open>_extract_initiator_frames\<close>\<close>

text \<open>
  \<^verbatim>\<open>frames.extend(call_frames)\<close>: a list contributes its elements, a string its characters,
  a dict its keys; a number or \<^verbatim>\<open>True\<close> is not iterable.
\<close>

fun extend :: "pyval list \<Rightarrow> pyval \<Rightarrow> py_error + pyval list" where
  "extend frames (PList xs) = Inr (frames @ xs)"
| "extend frames (PStr s) = Inr (frames @ map (\<lambda>c. PStr [c]) s)"
| "extend frames (PDict kvs) = Inr (frames @ map (\<lambda>kv. PStr (fst kv)) kvs)"
| "extend frames _ = Inl TypeError"

text \<open>
  The loop of lines 289-292.  \<^verbatim>\<open>stack.get('callFrames')\<close> is evaluated before the
  \<^verbatim>\<open>isinstance(stack, dict)\<close> test of line 292, so a truthy stack that is not a dict
  raises \<^verbatim>\<open>AttributeError\<close>.
\<close>

function walk_stack :: "pyval \<Rightarrow> pyval list \<Rightarrow> py_error + pyval list" where
  "walk_stack stack frames =
     (if \<not> truthy stack then Inr frames
      else case stack of
        PDict kvs \<Rightarrow>
          (case extend frames (py_or (dict_get kvs ''callFrames'') (PList [])) of
             Inl e \<Rightarrow> Inl e
           | Inr frames' \<Rightarrow> walk_stack (dict_get kvs ''parent'') frames')
      | _ \<Rightarrow> Inl AttributeError)"
  by pat_completeness auto
termination
proof (relation "measure (\<lambda>(stack, frames). size stack)")
  show "wf (measure (\<lambda>(stack, frames). size stack))"
    by simp
next
  fix stack :: pyval and frames frames' :: "pyval list" and kvs
  assume "stack = PDict kvs"
  have below: "size v < Suc (size_list (size_prod (\<lambda>_. 0) size) xs)"
    if "map_of xs k = Some v" for xs :: "(string \<times> pyval) list" and k v
    using that by (induction xs) (auto split: if_splits)
  have "size (dict_get kvs ''parent'') < size (PDict kvs)"
    using below [of kvs "''parent''"] by (auto simp: dict_get_def split: option.splits)
  with \<open>stack = PDict kvs\<close>
  show "((dict_get kvs ''parent'', frames'), (stack, frames))
          \<in> measure (\<lambda>(stack, frames). size stack)"
    by simp
qed

declare walk_stack.simps [simp del]

definition extract_initiator_frames :: "pyval \<Rightarrow> py_error + pyval list" where
  "extract_initiator_frames initiator =
     (case initiator of
        PDict kvs \<Rightarrow> walk_stack (py_or (dict_get kvs ''stack'') (dict_get kvs ''stackTrace'')) []
      | _ \<Rightarrow> Inr [])"

section \<open>Request lifecycle correlator\<close>

text \<open>
  \<^verbatim>\<open>_find_entry\<close> (lines 272-280) scans \<^verbatim>\<open>reversed(logs)\<close> and returns the first entry
  with the request id.  The handlers mutate the returned object in place, so the model
  returns its position in the buffer.
\<close>

fun first_index :: "('a \<Rightarrow> bool) \<Rightarrow> 'a list \<Rightarrow> nat option" where
  "first_index P [] = None"
| "first_index P (x # xs) = (if P x then Some 0 else map_option Suc (first_index P xs))"

definition reversed_index :: "('a \<Rightarrow> bool) \<Rightarrow> 'a list \<Rightarrow> nat option" where
  "reversed_index P xs = map_option (\<lambda>j. length xs - 1 - j) (first_index P (rev xs))"

definition priv_find_entry :: "watchdog \<Rightarrow> string \<Rightarrow> string \<Rightarrow> nat option" where
  "priv_find_entry w target_id rid =
     (case network_logs w target_id of
        None \<Rightarrow> None
      | Some logs \<Rightarrow>
          if items logs = [] then None
          else reversed_index (\<lambda>e. request_id e = rid) (items logs))"

text \<open>In-place mutation of the entry at a position of a target's buffer.\<close>

definition mutate_entry :: "watchdog \<Rightarrow> string \<Rightarrow> nat \<Rightarrow> (entry \<Rightarrow> entry) \<Rightarrow> watchdog" where
  "mutate_entry w target_id i f =
     (case network_logs w target_id of
        None \<Rightarrow> w
      | Some logs \<Rightarrow>
          w\<lparr>network_logs :=
              (network_logs w)(target_id \<mapsto> logs\<lparr>items := (items logs)[i := f (items logs ! i)]\<rparr>)\<rparr>)"

definition empty_request :: request_data where
  "empty_request = \<lparr>rq_url = None, rq_method = None, rq_headers = None, rq_postData = None\<rparr>"

definition empty_response :: response_data where
  "empty_response =
     \<lparr>rs_status = None, rs_statusText = None, rs_mimeType = None, rs_headers = None,
      rs_responseTime = None\<rparr>"

text \<open>The body preview of line 105.\<close>

definition body_preview :: "string \<Rightarrow> string" where
  "body_preview post_data =
     (if length post_data \<le> 2000 then post_data
      else take 2000 post_data @ ''... (truncated ''
           @ str_int (int (length post_data) - 2000) @ '' chars)'')"

text \<open>The entry built by \<^verbatim>\<open>on_request\<close> (lines 100-119).\<close>

definition build_entry :: "string \<Rightarrow> request_will_be_sent \<Rightarrow> py_error + entry" where
  "build_entry rtype event =
     (let request = (case rq_request event of Some r \<Rightarrow> r | None \<Rightarrow> empty_request) in
      case extract_initiator_frames (rq_initiator event) of
        Inl err \<Rightarrow> Inl err
      | Inr stack_frames \<Rightarrow>
          Inr \<lparr>request_id = rq_requestId event,
               url = (case rq_url request of Some u \<Rightarrow> u | None \<Rightarrow> []),
               http_method = (case rq_method request of Some m \<Rightarrow> m | None \<Rightarrow> ''GET''),
               resource_type = rtype,
               start_time = (case rq_wallTime event of Some t \<Rightarrow> t | None \<Rightarrow> 0),
               status = None,
               status_text = None,
               mime_type = None,
               error_text = None,
               initiator_type =
                 (case rq_initiator event of PDict kvs \<Rightarrow> dict_get kvs ''type'' | _ \<Rightarrow> PNone),
               request_headers = (case rq_headers request of Some h \<Rightarrow> h | None \<Rightarrow> []),
               response_headers = [],
               request_body_preview = map_option body_preview (rq_postData request),
               encoded_data_length = None,
               end_time = None,
               stack_trace = stack_frames\<rparr>)"

text \<open>
  \<^verbatim>\<open>on_request\<close> (lines 95-120), for the target the closure was created for.  An exception
  leaves the store as it was: the append is the last statement.
\<close>

definition on_request :: "watchdog \<Rightarrow> string \<Rightarrow> request_will_be_sent \<Rightarrow> py_error + watchdog" where
  "on_request w target_id event =
     (let rtype = (case rq_type event of Some t \<Rightarrow> t | None \<Rightarrow> ''Unknown'') in
      if rtype \<in> ignored_resource_types w then Inr w
      else case build_entry rtype event of
        Inl err \<Rightarrow> Inl err
      | Inr e \<Rightarrow>
          (case network_logs w target_id of
             None \<Rightarrow> Inl KeyError
           | Some logs \<Rightarrow>
               Inr (w\<lparr>network_logs := (network_logs w)(target_id \<mapsto> deque_append logs e)\<rparr>)))"

text \<open>The assignments of \<^verbatim>\<open>on_response\<close> to the entry it found (lines 130-135).\<close>

definition apply_response :: "response_data \<Rightarrow> entry \<Rightarrow> entry" where
  "apply_response response e =
     e\<lparr>status := rs_status response,
       status_text := rs_statusText response,
       mime_type := rs_mimeType response,
       response_headers :=
         (case rs_headers response of Some h \<Rightarrow> h | None \<Rightarrow> response_headers e),
       end_time :=
         (case rs_responseTime response of
            Some t \<Rightarrow> if t \<noteq> 0 then Some t else end_time e
          | None \<Rightarrow> end_time e)\<rparr>"

definition on_response :: "watchdog \<Rightarrow> string \<Rightarrow> response_received \<Rightarrow> watchdog" where
  "on_response w target_id event =
     (let response = (case rr_response event of Some r \<Rightarrow> r | None \<Rightarrow> empty_response) in
      case priv_find_entry w target_id (rr_requestId event) of
        None \<Rightarrow> w
      | Some i \<Rightarrow> mutate_entry w target_id i (apply_response response))"

text \<open>The assignments of \<^verbatim>\<open>on_failure\<close> (lines 143-147).\<close>

definition apply_failure :: "loading_failed \<Rightarrow> entry \<Rightarrow> entry" where
  "apply_failure event e =
     e\<lparr>error_text := lf_errorText event,
       status := (if status e = None then Some 0 else status e),
       end_time := (if end_time e = None then lf_timestamp event else end_time e)\<rparr>"

definition on_failure :: "watchdog \<Rightarrow> string \<Rightarrow> loading_failed \<Rightarrow> watchdog" where
  "on_failure w target_id event =
     (case priv_find_entry w target_id (lf_requestId event) of
        None \<Rightarrow> w
      | Some i \<Rightarrow> mutate_entry w target_id i (apply_failure event))"

text \<open>The assignments of \<^verbatim>\<open>on_loading_finished\<close> (lines 155-156).\<close>

definition apply_finished :: "loading_finished \<Rightarrow> entry \<Rightarrow> entry" where
  "apply_finished event e =
     e\<lparr>encoded_data_length := fin_encodedDataLength event,
       end_time := fin_timestamp event\<rparr>"

definition on_loading_finished :: "watchdog \<Rightarrow> string \<Rightarrow> loading_finished \<Rightarrow> watchdog" where
  "on_loading_finished w target_id event =
     (case priv_find_entry w target_id (fin_requestId event) of
        None \<Rightarrow> w
      | Some i \<Rightarrow> mutate_entry w target_id i (apply_finished event))"

text \<open>
  A run of request events delivered to one target's \<^verbatim>\<open>on_request\<close>.  Each delivery is a
  separate callback invocation; one that raises has not touched the store.
\<close>

fun deliver_requests :: "watchdog \<Rightarrow> string \<Rightarrow> request_will_be_sent list \<Rightarrow> watchdog" where
  "deliver_requests w target_id [] = w"
| "deliver_requests w target_id (event # events) =
     deliver_requests
       (case on_request w target_id event of Inl err \<Rightarrow> w | Inr w' \<Rightarrow> w') target_id events"

text \<open>The buffer of a target, empty when the target has none (\<^verbatim>\<open>get_traffic_log\<close>, lines 169-172).\<close>

definition get_traffic_log :: "watchdog \<Rightarrow> string \<Rightarrow> entry list" where
  "get_traffic_log w target_id =
     (case network_logs w target_id of None \<Rightarrow> [] | Some logs \<Rightarrow> items logs)"

section \<open>Target attachment: \<^verbatim>\<open>attach_to_target\<close>\<close>

text \<open>
  What the awaited and external calls of one attachment attempt do is given by an
  environment: for each of them, the exception it raises, if any.  The exceptions are
  instances of \<^verbatim>\<open>Exception\<close>.
\<close>

record attach_env =
  session_raises :: "py_error option"
  enable_raises :: "py_error option"
  register_raises :: "callback \<Rightarrow> py_error option"

text \<open>
  One \<^verbatim>\<open>session.cdp_client.register\<close> call: the callback is held by the session from
  then on, unless the call raises.
\<close>

definition register :: "attach_env \<Rightarrow> string \<Rightarrow> callback \<Rightarrow> watchdog \<Rightarrow> py_error + watchdog" where
  "register env target_id cb w =
     (case register_raises env cb of
        Some err \<Rightarrow> Inl err
      | None \<Rightarrow> Inr (w\<lparr>cdp_handlers := cdp_handlers w @ [(target_id, cb)]\<rparr>))"

text \<open>
  The \<^verbatim>\<open>try\<close> block (lines 88-164).  The first component is the exception that leaves
  the block, the second the state at that moment: what was done before a raise stays
  done.
\<close>

definition attach_body :: "attach_env \<Rightarrow> watchdog \<Rightarrow> string \<Rightarrow> py_error option \<times> watchdog" where
  "attach_body env w target_id =
     (case session_raises env of
        Some err \<Rightarrow> (Some err, w)
      | None \<Rightarrow>
          (case (if target_id \<in> dom (network_logs w) then Inr w
                 else case new_deque (max_logs_per_tab w) of
                        Inl err \<Rightarrow> Inl err
                      | Inr d \<Rightarrow> Inr (w\<lparr>network_logs := (network_logs w)(target_id \<mapsto> d)\<rparr>)) of
             Inl err \<Rightarrow> (Some err, w)
           | Inr w1 \<Rightarrow>
               (case enable_raises env of
                  Some err \<Rightarrow> (Some err, w1)
                | None \<Rightarrow>
                    (case register env target_id OnRequest w1 of
                       Inl err \<Rightarrow> (Some err, w1)
                     | Inr w2 \<Rightarrow>
                    (case register env target_id OnResponse w2 of
                       Inl err \<Rightarrow> (Some err, w2)
                     | Inr w3 \<Rightarrow>
                    (case register env target_id OnFailure w3 of
                       Inl err \<Rightarrow> (Some err, w3)
                     | Inr w4 \<Rightarrow>
                    (case register env target_id OnLoadingFinished w4 of
                       Inl err \<Rightarrow> (Some err, w4)
                     | Inr w5 \<Rightarrow>
                         (None, w5\<lparr>monitored_targets := insert target_id (monitored_targets w5)\<rparr>))))))))"

text \<open>
  \<^verbatim>\<open>attach_to_target\<close> (lines 83-167): the membership test, the \<^verbatim>\<open>try\<close> block and the
  handler \<^verbatim>\<open>except Exception\<close>, which logs a warning and returns.  The first component
  of the result is the exception raised to the caller.
\<close>

definition attach_to_target :: "attach_env \<Rightarrow> watchdog \<Rightarrow> string \<Rightarrow> py_error option \<times> watchdog" where
  "attach_to_target env w target_id =
     (if target_id \<in> monitored_targets w then (None, w)
      else case attach_body env w target_id of
        (Some err, w') \<Rightarrow> (None, w')
      | (None, w') \<Rightarrow> (None, w'))"

section \<open>Query layer: \<^verbatim>\<open>find_entry\<close>\<close>

text \<open>
  \<^verbatim>\<open>str.lower\<close> on ASCII text; characters outside \<^verbatim>\<open>A-Z\<close> are left as they are.
\<close>

definition lower_char :: "char \<Rightarrow> char" where
  "lower_char c =
     (if 65 \<le> (of_char c :: nat) \<and> (of_char c :: nat) \<le> 90
      then char_of ((of_char c :: nat) + 32) else c)"

definition lower :: "string \<Rightarrow> string" where
  "lower s = map lower_char s"

text \<open>\<^verbatim>\<open>p in s\<close> for strings: \<^verbatim>\<open>p\<close> occurs in \<^verbatim>\<open>s\<close> as a contiguous block.\<close>

fun starts_with :: "string \<Rightarrow> string \<Rightarrow> bool" where
  "starts_with s [] = True"
| "starts_with [] (c # p) = False"
| "starts_with (d # s) (c # p) = (d = c \<and> starts_with s p)"

fun str_in :: "string \<Rightarrow> string \<Rightarrow> bool" where
  "str_in p [] = (p = [])"
| "str_in p (c # s) = (starts_with (c # s) p \<or> str_in p s)"

text \<open>\<^verbatim>\<open>find_entry\<close> (lines 174-180).\<close>

definition find_entry :: "watchdog \<Rightarrow> string \<Rightarrow> string \<Rightarrow> entry option" where
  "find_entry w target_id url_pattern =
     (let logs = get_traffic_log w target_id;
          url_pattern_lower = lower url_pattern
      in find (\<lambda>e. str_in url_pattern_lower (lower (url e))) (rev logs))"

section \<open>Capture gate: \<^verbatim>\<open>on_ScreenshotEvent\<close>\<close>

text \<open>
  Exceptions of the screenshot handler.  \<^verbatim>\<open>CancelledError\<close> derives from
  \<^verbatim>\<open>BaseException\<close> and is not caught by \<^verbatim>\<open>except Exception\<close>; the others are
  instances of \<^verbatim>\<open>Exception\<close>.  \<^verbatim>\<open>asyncio.TimeoutError\<close> is the builtin
  \<^verbatim>\<open>TimeoutError\<close> (Python 3.11 and later).
\<close>

datatype shot_exn =
    BrowserError string
  | TimeoutError
  | CancelledError
  | OtherException string

record screenshot_event =
  event_timeout :: "real option"

record target =
  tg_id :: string
  tg_type :: string

text \<open>
  The scheduler and the collaborators of one request, as an environment: whether the
  request is cancelled while it waits for the lock, whether a holder of the lock gives
  it up within the wait, what the target registry answers, and what the awaited calls
  return or raise.
\<close>

datatype other_holder = ReleasesInTime | KeepsHolding

record shot_env =
  cancel_at_acquire :: bool
  holder :: other_holder
  focused_target :: "target option"
  page_targets :: "target list"
  session_raises_shot :: "shot_exn option"
  capture_outcome :: "shot_exn + (string \<times> string) list"
  highlights_raises :: "shot_exn option"

text \<open>The calls the handler issues, in order, with their timeouts.\<close>

datatype command =
    AcquireLock real
  | GetSession string
  | CaptureScreenshot string real
  | ReleaseLock
  | RemoveHighlights

record shot_result =
  outcome :: "shot_exn + string"
  locked_after :: bool
  issued :: "command list"

text \<open>Lines 42-43.  \<^verbatim>\<open>event.event_timeout or 15.0\<close> is a truthiness test.\<close>

definition timeout_seconds :: "screenshot_event \<Rightarrow> real" where
  "timeout_seconds event =
     (case event_timeout event of
        Some t \<Rightarrow> if t \<noteq> 0 then t else 15
      | None \<Rightarrow> 15)"

definition capture_timeout :: "screenshot_event \<Rightarrow> real" where
  "capture_timeout event = max (timeout_seconds event - 2) 1"

text \<open>Target selection, lines 53-64.\<close>

definition select_target :: "shot_env \<Rightarrow> shot_exn + string" where
  "select_target env =
     (let fallback =
            (if page_targets env = [] then
               Inl (BrowserError ''[ScreenshotWatchdog] No page targets available for screenshot'')
             else Inr (tg_id (last (page_targets env))))
      in case focused_target env of
           Some t \<Rightarrow> if tg_type t \<in> {''page'', ''tab''} then Inr (tg_id t) else fallback
         | None \<Rightarrow> fallback)"

text \<open>Lines 53-85, run with the lock held: the result or exception, and the calls issued.\<close>

definition capture :: "shot_env \<Rightarrow> screenshot_event \<Rightarrow> (shot_exn + string) \<times> command list" where
  "capture env event =
     (case select_target env of
        Inl err \<Rightarrow> (Inl err, [])
      | Inr tid \<Rightarrow>
          (case session_raises_shot env of
             Some err \<Rightarrow> (Inl err, [GetSession tid])
           | None \<Rightarrow>
               ((case capture_outcome env of
                   Inl err \<Rightarrow> Inl err
                 | Inr result \<Rightarrow>
                     (case (if result \<noteq> [] then map_of result ''data'' else None) of
                        Some data \<Rightarrow> Inr data
                      | None \<Rightarrow>
                          Inl (BrowserError ''[ScreenshotWatchdog] Screenshot result missing data''))),
                [GetSession tid, CaptureScreenshot tid (capture_timeout event)])))"

text \<open>
  The \<^verbatim>\<open>try\<close> block, lines 45-85: the result or exception, \<^verbatim>\<open>lock_acquired\<close>, the state of
  the lock, and the calls issued.  \<^verbatim>\<open>asyncio.wait_for(lock.acquire(), timeout=2.0)\<close> on a
  free lock takes it; on a held lock it takes it if the holder releases within the
  wait, and times out otherwise.  The three \<^verbatim>\<open>except\<close> clauses of lines 86-94 log and
  re-raise, so the exception that leaves the block is the one raised in it.
\<close>

definition try_block ::
  "shot_env \<Rightarrow> bool \<Rightarrow> screenshot_event \<Rightarrow> (shot_exn + string) \<times> bool \<times> bool \<times> command list" where
  "try_block env locked event =
     (if cancel_at_acquire env then (Inl CancelledError, False, locked, [AcquireLock 2])
      else if locked \<and> holder env = KeepsHolding then
        (Inl (BrowserError ''[ScreenshotWatchdog] Another screenshot is already in progress''),
         False, locked, [AcquireLock 2])
      else
        (case capture env event of
           (r, cmds) \<Rightarrow> (r, True, True, AcquireLock 2 # cmds)))"

text \<open>
  \<^verbatim>\<open>asyncio.Lock.release\<close>: frees a held lock, raises \<^verbatim>\<open>RuntimeError\<close> on a free one.
\<close>

definition release :: "bool \<Rightarrow> shot_exn + bool" where
  "release locked = (if locked then Inr False else Inl (OtherException ''RuntimeError''))"

text \<open>
  The handler (lines 41-102): the \<^verbatim>\<open>try\<close> block and the \<^verbatim>\<open>finally\<close> clause.  In the
  \<^verbatim>\<open>finally\<close> clause an exception of \<^verbatim>\<open>remove_highlights\<close> is swallowed by
  \<^verbatim>\<open>except Exception\<close>, a cancellation is not.
\<close>

definition on_ScreenshotEvent :: "shot_env \<Rightarrow> bool \<Rightarrow> screenshot_event \<Rightarrow> shot_result" where
  "on_ScreenshotEvent env locked event =
     (case try_block env locked event of
        (r, lock_acquired, locked1, cmds) \<Rightarrow>
          (case (if lock_acquired then release locked1 else Inr locked1) of
             Inl err \<Rightarrow>
               \<lparr>outcome = Inl err, locked_after = locked1, issued = cmds @ [ReleaseLock]\<rparr>
           | Inr locked2 \<Rightarrow>
               \<lparr>outcome =
                  (case highlights_raises env of
                     Some CancelledError \<Rightarrow> Inl CancelledError
                   | _ \<Rightarrow> r),
                locked_after = locked2,
                issued = cmds @ (if lock_acquired then [ReleaseLock] else []) @ [RemoveHighlights]\<rparr>))"

section \<open>Properties of entries and event sequences\<close>

text \<open>
  The fields that no handler assigns have the same values in both entries.
\<close>

definition never_written_same :: "entry \<Rightarrow> entry \<Rightarrow> bool" where
  "never_written_same e e' \<longleftrightarrow>
     request_id e' = request_id e
     \<and> url e' = url e
     \<and> http_method e' = http_method e
     \<and> resource_type e' = resource_type e
     \<and> start_time e' = start_time e
     \<and> initiator_type e' = initiator_type e
     \<and> request_headers e' = request_headers e
     \<and> request_body_preview e' = request_body_preview e
     \<and> stack_trace e' = stack_trace e"

text \<open>
  Nothing of the first entry has been taken back in the second: the fields that no
  handler assigns are as they were, and no nullable field that was set has become null.
\<close>

definition no_field_retracted :: "entry \<Rightarrow> entry \<Rightarrow> bool" where
  "no_field_retracted e e' \<longleftrightarrow>
     never_written_same e e'
     \<and> (status e \<noteq> None \<longrightarrow> status e' \<noteq> None)
     \<and> (status_text e \<noteq> None \<longrightarrow> status_text e' \<noteq> None)
     \<and> (mime_type e \<noteq> None \<longrightarrow> mime_type e' \<noteq> None)
     \<and> (error_text e \<noteq> None \<longrightarrow> error_text e' \<noteq> None)
     \<and> (initiator_type e \<noteq> PNone \<longrightarrow> initiator_type e' \<noteq> PNone)
     \<and> (request_body_preview e \<noteq> None \<longrightarrow> request_body_preview e' \<noteq> None)
     \<and> (encoded_data_length e \<noteq> None \<longrightarrow> encoded_data_length e' \<noteq> None)
     \<and> (end_time e \<noteq> None \<longrightarrow> end_time e' \<noteq> None)"

text \<open>
  The three events that update an entry, as the session dispatches them to the callbacks
  registered for a target.
\<close>

datatype update =
    ResponseReceived response_received
  | LoadingFailed loading_failed
  | LoadingFinished loading_finished

fun dispatch :: "watchdog \<Rightarrow> string \<Rightarrow> update \<Rightarrow> watchdog" where
  "dispatch w target_id (ResponseReceived event) = on_response w target_id event"
| "dispatch w target_id (LoadingFailed event) = on_failure w target_id event"
| "dispatch w target_id (LoadingFinished event) = on_loading_finished w target_id event"

fun dispatch_all :: "watchdog \<Rightarrow> string \<Rightarrow> update list \<Rightarrow> watchdog" where
  "dispatch_all w target_id [] = w"
| "dispatch_all w target_id (u # us) = dispatch_all (dispatch w target_id u) target_id us"

text \<open>
  The event carries every value that its handler copies into the entry without a test:
  status, status text and MIME type of a response; the error text of a failure; size and
  timestamp of a completion.
\<close>

fun carries_values :: "update \<Rightarrow> bool" where
  "carries_values (ResponseReceived event) =
     (case rr_response event of
        None \<Rightarrow> False
      | Some r \<Rightarrow> rs_status r \<noteq> None \<and> rs_statusText r \<noteq> None \<and> rs_mimeType r \<noteq> None)"
| "carries_values (LoadingFailed event) = (lf_errorText event \<noteq> None)"
| "carries_values (LoadingFinished event) =
     (fin_encodedDataLength event \<noteq> None \<and> fin_timestamp event \<noteq> None)"

text \<open>
  Every field that the handler of the event does not assign has the same value in both
  entries.  \<^verbatim>\<open>on_response\<close> assigns status, status text, MIME type, response headers and
  end time; \<^verbatim>\<open>on_failure\<close> assigns error text, status and end time;
  \<^verbatim>\<open>on_loading_finished\<close> assigns encoded data length and end time.
\<close>

fun untouched_by :: "update \<Rightarrow> entry \<Rightarrow> entry \<Rightarrow> bool" where
  "untouched_by (ResponseReceived event) e e' =
     (never_written_same e e'
      \<and> error_text e' = error_text e
      \<and> encoded_data_length e' = encoded_data_length e)"
| "untouched_by (LoadingFailed event) e e' =
     (never_written_same e e'
      \<and> status_text e' = status_text e
      \<and> mime_type e' = mime_type e
      \<and> response_headers e' = response_headers e
      \<and> encoded_data_length e' = encoded_data_length e)"
| "untouched_by (LoadingFinished event) e e' =
     (never_written_same e e'
      \<and> status e' = status e
      \<and> status_text e' = status_text e
      \<and> mime_type e' = mime_type e
      \<and> error_text e' = error_text e
      \<and> response_headers e' = response_headers e)"

section \<open>Sample inputs\<close>

text \<open>The entry that \<^verbatim>\<open>on_request\<close> builds for a plain \<^verbatim>\<open>GET\<close> of type \<^verbatim>\<open>XHR\<close>.\<close>

definition sample_entry :: entry where
  "sample_entry =
     \<lparr>request_id = ''r1'',
      url = ''https://api.example.com/v1/search'',
      http_method = ''GET'',
      resource_type = ''XHR'',
      start_time = 100,
      status = None,
      status_text = None,
      mime_type = None,
      error_text = None,
      initiator_type = PNone,
      request_headers = [],
      response_headers = [],
      request_body_preview = None,
      encoded_data_length = None,
      end_time = None,
      stack_trace = []\<rparr>"

text \<open>
  A screenshot request served without incident: the focused target is a page, the
  session is there, and the capture returns a payload.
\<close>

definition calm_env :: shot_env where
  "calm_env =
     \<lparr>cancel_at_acquire = False,
      holder = KeepsHolding,
      focused_target = Some \<lparr>tg_id = ''T1'', tg_type = ''page''\<rparr>,
      page_targets = [\<lparr>tg_id = ''T1'', tg_type = ''page''\<rparr>],
      session_raises_shot = None,
      capture_outcome = Inr [(''data'', ''iVBORw0KGgo='')],
      highlights_raises = None\<rparr>"

text \<open>
  A well-formed initiator stack: the frame lists of the stacks from the innermost
  outward, each stack but the last linked to the next by \<^verbatim>\<open>parent\<close>.
\<close>

fun stack_chain :: "pyval list list \<Rightarrow> pyval" where
  "stack_chain [] = PNone"
| "stack_chain [fs] = PDict [(''callFrames'', PList fs)]"
| "stack_chain (fs # gs # rest) =
     PDict [(''callFrames'', PList fs), (''parent'', stack_chain (gs # rest))]"

text \<open>
  A store with one attached target \<^verbatim>\<open>T1\<close> whose buffer holds three entries, in arrival
  order; the first two have the word \<^verbatim>\<open>search\<close> in their URL, in different case.
\<close>

definition sample_log :: "entry list" where
  "sample_log =
     [sample_entry,
      sample_entry\<lparr>request_id := ''r2'', url := ''https://api.example.com/v1/Search?page=2''\<rparr>,
      sample_entry\<lparr>request_id := ''r3'', url := ''https://api.example.com/v1/login''\<rparr>]"

definition sample_watchdog :: watchdog where
  "sample_watchdog =
     \<lparr>max_logs_per_tab = 200,
      ignored_resource_types = {''Image'', ''Stylesheet'', ''Font'', ''Media'', ''Manifest'', ''Other''},
      network_logs = [''T1'' \<mapsto> \<lparr>maxlen = 200, items = sample_log\<rparr>],
      monitored_targets = {''T1''},
      cdp_handlers =
        [(''T1'', OnRequest), (''T1'', OnResponse), (''T1'', OnFailure), (''T1'', OnLoadingFinished)]\<rparr>"

text \<open>
  A watchdog as constructed, with nothing attached, and an attachment attempt in which
  no call raises.
\<close>

definition fresh_watchdog :: watchdog where
  "fresh_watchdog =
     \<lparr>max_logs_per_tab = 200,
      ignored_resource_types = {''Image'', ''Stylesheet'', ''Font'', ''Media'', ''Manifest'', ''Other''},
      network_logs = Map.empty,
      monitored_targets = {},
      cdp_handlers = []\<rparr>"

definition quiet_env :: attach_env where
  "quiet_env =
     \<lparr>session_raises = None, enable_raises = None, register_raises = (\<lambda>cb. None)\<rparr>"

text \<open>A request event of type \<^verbatim>\<open>XHR\<close> with a given request id and no initiator.\<close>

definition sample_request :: "string \<Rightarrow> request_will_be_sent" where
  "sample_request rid =
     \<lparr>rq_requestId = rid,
      rq_type = Some ''XHR'',
      rq_request =
        Some \<lparr>rq_url = Some ''https://api.example.com/v1/search'', rq_method = Some ''GET'',
              rq_headers = Some [], rq_postData = None\<rparr>,
      rq_initiator = PNone,
      rq_wallTime = Some 100\<rparr>"

text \<open>
  Events about the first request of the sample store: a failure, a response that
  carries no status, a complete response, and a completion.
\<close>

definition sample_failure :: loading_failed where
  "sample_failure =
     \<lparr>lf_requestId = ''r1'', lf_errorText = Some ''net::ERR_CONNECTION_RESET'',
      lf_timestamp = Some 101\<rparr>"

definition bare_response :: response_received where
  "bare_response = \<lparr>rr_requestId = ''r1'', rr_response = Some empty_response\<rparr>"

definition sample_response :: "int \<Rightarrow> response_received" where
  "sample_response code =
     \<lparr>rr_requestId = ''r1'',
      rr_response =
        Some \<lparr>rs_status = Some code, rs_statusText = Some ''OK'',
              rs_mimeType = Some ''application/json'',
              rs_headers = Some [(''content-type'', ''application/json'')],
              rs_responseTime = None\<rparr>\<rparr>"

definition sample_finished :: loading_finished where
  "sample_finished =
     \<lparr>fin_requestId = ''r1'', fin_encodedDataLength = Some 1024, fin_timestamp = Some (100 + 1 / 4)\<rparr>"

section \<open>Rendering of an entry\<close>

lemma digit_char_in: "k < 10 \<Longrightarrow> digit_char k \<in> set ''0123456789''"
proof -
  assume "k < 10"
  then have "k \<in> {0, 1, 2, 3, 4, 5, 6, 7, 8, 9}"
    by auto
  then show ?thesis
    unfolding digit_char_def by auto
qed

lemma str_nat_nonempty: "str_nat n \<noteq> []"
  by (subst str_nat.simps) simp

lemma str_nat_digits: "set (str_nat n) \<subseteq> set ''0123456789''"
proof (induction n rule: str_nat.induct)
  case (1 n)
  show ?case
  proof (cases "n < 10")
    case True
    then show ?thesis
      using digit_char_in [of n] by (subst str_nat.simps) simp
  next
    case False
    have "digit_char (n mod 10) \<in> set ''0123456789''"
      by (rule digit_char_in) simp
    with False 1 show ?thesis
      by (subst str_nat.simps) simp
  qed
qed

text \<open>A rendered integer starts with a digit or a minus sign.\<close>

lemma str_int_hd: "hd (str_int k) \<in> set ''-0123456789''"
proof -
  have "hd (str_nat n) \<in> set ''0123456789''" for n
    using str_nat_digits [of n] str_nat_nonempty [of n] hd_in_set by blast
  then show ?thesis
    by (auto simp: str_int_def)
qed

lemma str_int_zero: "str_int 0 = ''0''"
  by (simp add: str_int_def str_nat.simps digit_char_def)

text \<open>
  Claim C9, as stated, at an entry with status \<open>0\<close>, the empty error text and no end
  time: the summary is the \<^verbatim>\<open>PENDING\<close> form, not a \<^verbatim>\<open>FAILED(...)\<close> form, and it has no
  duration part.
\<close>

theorem to_string_empty_error_counterexample:
  "status (sample_entry\<lparr>status := Some 0, error_text := Some []\<rparr>) = Some 0
   \<and> error_text (sample_entry\<lparr>status := Some 0, error_text := Some []\<rparr>) \<noteq> None
   \<and> to_string (sample_entry\<lparr>status := Some 0, error_text := Some []\<rparr>)
       = ''[GET] PENDING https://api.example.com/v1/search (XHR)''"
  by (simp add: sample_entry_def to_string_def status_str_def duration_ms_def)

text \<open>
  Claim C9, amended.  The summary of every entry is
  \<^verbatim>\<open>[METHOD] <status part> URL (type)\<close>, followed by \<^verbatim>\<open> <N>ms\<close> exactly when the entry
  has an end time, where \<^verbatim>\<open>N\<close> is the duration in milliseconds without decimals.  The
  status part is the decimal status when the status is a nonzero number; otherwise it is
  \<^verbatim>\<open>FAILED(<error_text>)\<close> when the error text is a non-empty string, and \<^verbatim>\<open>PENDING\<close>
  when the error text is null or empty.
\<close>

theorem to_string_format:
  "to_string e =
     ''['' @ http_method e @ ''] '' @ status_str e @ '' '' @ url e @ '' ('' @ resource_type e @ '')''
     @ (case end_time e of
          None \<Rightarrow> []
        | Some t \<Rightarrow> '' '' @ format_0f (max 0 ((t - start_time e) * 1000)) @ ''ms'')
   \<and> (\<forall>s. status e = Some s \<and> s \<noteq> 0 \<longrightarrow> status_str e = str_int s)
   \<and> (\<forall>t. (status e = None \<or> status e = Some 0) \<and> error_text e = Some t \<and> t \<noteq> []
          \<longrightarrow> status_str e = ''FAILED('' @ t @ '')'')
   \<and> ((status e = None \<or> status e = Some 0) \<and> (error_text e = None \<or> error_text e = Some [])
          \<longrightarrow> status_str e = ''PENDING'')"
  by (auto simp: to_string_def status_str_def duration_ms_def split: option.splits)

text \<open>
  The two scenarios of claim C9: an exchange completed with status \<open>200\<close> a quarter of a
  second after its start, and one that failed with \<^verbatim>\<open>net::ERR_CONNECTION_RESET\<close> before
  any response.
\<close>

theorem to_string_format_witness:
  "to_string (sample_entry\<lparr>status := Some 200, encoded_data_length := Some 1024,
                            end_time := Some (100 + 1 / 4)\<rparr>)
     = ''[GET] 200 https://api.example.com/v1/search (XHR) 250ms''
   \<and> to_string (sample_entry\<lparr>status := Some 0,
                              error_text := Some ''net::ERR_CONNECTION_RESET'',
                              end_time := Some 101\<rparr>)
     = ''[GET] FAILED(net::ERR_CONNECTION_RESET) https://api.example.com/v1/search (XHR) 1000ms''"
  using to_string_format
          [of "sample_entry\<lparr>status := Some 200, encoded_data_length := Some 1024,
                              end_time := Some (100 + 1 / 4)\<rparr>"]
        to_string_format
          [of "sample_entry\<lparr>status := Some 0,
                              error_text := Some ''net::ERR_CONNECTION_RESET'',
                              end_time := Some 101\<rparr>"]
  by (simp add: sample_entry_def format_0f_def round_half_even_def str_int_def str_nat.simps
        digit_char_def)

text \<open>
  Claim C10, as stated, at an entry with status \<open>0\<close> whose error text is set to the empty
  string: the status part is \<^verbatim>\<open>PENDING\<close>, not \<^verbatim>\<open>FAILED()\<close>.
\<close>

theorem status_str_zero_counterexample:
  "status (sample_entry\<lparr>status := Some 0, error_text := Some [], end_time := Some 101\<rparr>) = Some 0
   \<and> error_text (sample_entry\<lparr>status := Some 0, error_text := Some [], end_time := Some 101\<rparr>)
       \<noteq> None
   \<and> status_str (sample_entry\<lparr>status := Some 0, error_text := Some [], end_time := Some 101\<rparr>)
       = ''PENDING''
   \<and> status_str (sample_entry\<lparr>status := Some 0, error_text := Some [], end_time := Some 101\<rparr>)
       \<noteq> ''FAILED()''"
  by (simp add: sample_entry_def status_str_def)

text \<open>
  Claim C10, amended.  For every entry whose status is \<open>0\<close>, the status part of the
  summary is \<^verbatim>\<open>FAILED(<error_text>)\<close> when the error text is a non-empty string and
  \<^verbatim>\<open>PENDING\<close> when it is null or empty; it is never the rendering of \<open>0\<close>.  Whenever the
  status part is the decimal rendering of an integer, the status is a nonzero number.
\<close>

theorem status_str_zero:
  "(status e = Some 0 \<longrightarrow>
      status_str e =
        (case error_text e of
           None \<Rightarrow> ''PENDING''
         | Some t \<Rightarrow> if t = [] then ''PENDING'' else ''FAILED('' @ t @ '')'')
      \<and> status_str e \<noteq> str_int 0)
   \<and> (\<forall>k. status_str e = str_int k \<longrightarrow> status e \<noteq> None \<and> status e \<noteq> Some 0)"
proof -
  have word: "hd (status_str e) = CHR ''P'' \<or> hd (status_str e) = CHR ''F''"
    if "status e = None \<or> status e = Some 0"
    using that by (auto simp: status_str_def)
  have not_numeral: "status_str e \<noteq> str_int k" if "status e = None \<or> status e = Some 0" for k
    using word [OF that] str_int_hd [of k] by auto
  have forms: "status_str e =
        (case error_text e of
           None \<Rightarrow> ''PENDING''
         | Some t \<Rightarrow> if t = [] then ''PENDING'' else ''FAILED('' @ t @ '')'')"
    if "status e = Some 0"
    using that by (auto simp: status_str_def split: option.splits)
  have numeral: "status e \<noteq> None \<and> status e \<noteq> Some 0" if "status_str e = str_int k" for k
  proof (rule ccontr)
    assume "\<not> (status e \<noteq> None \<and> status e \<noteq> Some 0)"
    then have "status e = None \<or> status e = Some 0"
      by simp
    from not_numeral [OF this, of k] that show False
      by simp
  qed
  show ?thesis
  proof (intro conjI impI allI)
    assume "status e = Some 0"
    then show "status_str e =
        (case error_text e of
           None \<Rightarrow> ''PENDING''
         | Some t \<Rightarrow> if t = [] then ''PENDING'' else ''FAILED('' @ t @ '')'')"
      by (rule forms)
  next
    assume "status e = Some 0"
    then show "status_str e \<noteq> str_int 0"
      by (simp add: not_numeral)
  next
    fix k
    assume "status_str e = str_int k"
    from numeral [OF this] show "status e \<noteq> None"
      by (rule conjunct1)
  next
    fix k
    assume "status_str e = str_int k"
    from numeral [OF this] show "status e \<noteq> Some 0"
      by (rule conjunct2)
  qed
qed

theorem status_str_zero_witness:
  "status_str (sample_entry\<lparr>status := Some 0, error_text := Some ''net::ERR_CONNECTION_RESET''\<rparr>)
     = ''FAILED(net::ERR_CONNECTION_RESET)''
   \<and> status_str (sample_entry\<lparr>status := Some 0\<rparr>) = ''PENDING''
   \<and> status_str (sample_entry\<lparr>status := Some 0\<rparr>) \<noteq> ''0''"
  using status_str_zero
          [of "sample_entry\<lparr>status := Some 0, error_text := Some ''net::ERR_CONNECTION_RESET''\<rparr>"]
        status_str_zero [of "sample_entry\<lparr>status := Some 0\<rparr>"]
  by (simp add: sample_entry_def str_int_zero)

section \<open>Capture gate\<close>

text \<open>The calls of a request: the lock wait, the capture if the lock was taken, the cleanup.\<close>

lemma issued_cases:
  "issued (on_ScreenshotEvent env locked event) =
     (if cancel_at_acquire env \<or> (locked \<and> holder env = KeepsHolding)
      then [AcquireLock 2, RemoveHighlights]
      else AcquireLock 2 # snd (capture env event) @ [ReleaseLock, RemoveHighlights])"
  by (auto simp: on_ScreenshotEvent_def try_block_def release_def split: prod.splits sum.splits)

lemma capture_commands:
  "CaptureScreenshot tid t \<in> set (snd (capture env event)) \<Longrightarrow> t = capture_timeout event"
  by (auto simp: capture_def split: sum.splits option.splits)

text \<open>\<^verbatim>\<open>lock_acquired\<close> is set exactly when the wait ends with the lock taken.\<close>

lemma lock_acquired_iff:
  "fst (snd (try_block env locked event))
     \<longleftrightarrow> \<not> cancel_at_acquire env \<and> \<not> (locked \<and> holder env = KeepsHolding)"
  by (simp add: try_block_def split: prod.splits)

text \<open>
  Claim C6, as stated, fails in three ways.  A request that supplies the overall timeout
  \<open>0\<close> has its capture issued with the timeout \<open>13\<close>, that of the default \<open>15\<close>, not
  with \<open>max (0 - 2) 1 = 1\<close>.  A request that does not get the gate and is cancelled,
  during the closing cleanup or during the wait itself, ends with the cancellation and
  not with the "already in progress" error.  A request that gets the gate but finds no
  page target issues no capture command.
\<close>

theorem capture_gate_counterexample:
  "issued (on_ScreenshotEvent calm_env False \<lparr>event_timeout = Some 0\<rparr>)
     = [AcquireLock 2, GetSession ''T1'', CaptureScreenshot ''T1'' 13, ReleaseLock, RemoveHighlights]
   \<and> (13 :: real) \<noteq> max (0 - 2) 1
   \<and> fst (snd (try_block (calm_env\<lparr>highlights_raises := Some CancelledError\<rparr>) True
                  \<lparr>event_timeout = None\<rparr>)) = False
   \<and> outcome (on_ScreenshotEvent (calm_env\<lparr>highlights_raises := Some CancelledError\<rparr>) True
                 \<lparr>event_timeout = None\<rparr>) = Inl CancelledError
   \<and> outcome (on_ScreenshotEvent (calm_env\<lparr>cancel_at_acquire := True\<rparr>) True
                 \<lparr>event_timeout = None\<rparr>) = Inl CancelledError
   \<and> fst (snd (try_block (calm_env\<lparr>focused_target := None, page_targets := []\<rparr>) False
                  \<lparr>event_timeout = None\<rparr>)) = True
   \<and> issued (on_ScreenshotEvent (calm_env\<lparr>focused_target := None, page_targets := []\<rparr>) False
                \<lparr>event_timeout = None\<rparr>)
       = [AcquireLock 2, ReleaseLock, RemoveHighlights]"
  by (simp add: on_ScreenshotEvent_def try_block_def capture_def select_target_def release_def
        capture_timeout_def timeout_seconds_def calm_env_def)

text \<open>
  Claim C6, amended.  The gate is waited for with the bound \<open>2\<close> and no other.  If the gate
  is not acquired, the request fails at once, without queueing: nothing but the cleanup
  follows the wait, and the request ends with the error "Another screenshot is already
  in progress", unless it was cancelled while it waited or is cancelled during the
  closing cleanup, in which case it ends with the cancellation.  When the gate is
  acquired and a page target and its session are obtained, the capture command is
  issued, and every capture command issued carries the timeout
  \<open>max (overall_timeout - 2) 1\<close>, where the overall timeout is \<open>15\<close> when the request
  supplies none or supplies \<open>0\<close>.
\<close>

theorem capture_gate_budget:
  "hd (issued (on_ScreenshotEvent env locked event)) = AcquireLock 2
   \<and> (\<forall>t. AcquireLock t \<in> set (issued (on_ScreenshotEvent env locked event)) \<longrightarrow> t = 2)
   \<and> (\<not> fst (snd (try_block env locked event)) \<longrightarrow>
        issued (on_ScreenshotEvent env locked event) = [AcquireLock 2, RemoveHighlights]
        \<and> outcome (on_ScreenshotEvent env locked event)
            = (if cancel_at_acquire env \<or> highlights_raises env = Some CancelledError
               then Inl CancelledError
               else Inl (BrowserError
                      ''[ScreenshotWatchdog] Another screenshot is already in progress'')))
   \<and> (\<forall>tid t. CaptureScreenshot tid t \<in> set (issued (on_ScreenshotEvent env locked event)) \<longrightarrow>
        t = (case event_timeout event of
               None \<Rightarrow> max (15 - 2) 1
             | Some x \<Rightarrow> if x = 0 then max (15 - 2) 1 else max (x - 2) 1))
   \<and> (\<forall>tid. fst (snd (try_block env locked event))
          \<and> select_target env = Inr tid \<and> session_raises_shot env = None \<longrightarrow>
        CaptureScreenshot tid
            (case event_timeout event of
               None \<Rightarrow> max (15 - 2) 1
             | Some x \<Rightarrow> if x = 0 then max (15 - 2) 1 else max (x - 2) 1)
          \<in> set (issued (on_ScreenshotEvent env locked event)))"
proof -
  let ?budget = "case event_timeout event of
               None \<Rightarrow> max (15 - 2) 1
             | Some x \<Rightarrow> if x = 0 then max (15 - 2) 1 else max (x - 2) (1 :: real)"
  have budget: "capture_timeout event = ?budget"
    by (simp add: capture_timeout_def timeout_seconds_def split: option.splits)
  have no_acquire: "AcquireLock t \<notin> set (snd (capture env event))" for t
    by (auto simp: capture_def split: sum.splits option.splits)
  have first: "hd (issued (on_ScreenshotEvent env locked event)) = AcquireLock 2"
    by (simp add: issued_cases)
  have only: "t = 2" if "AcquireLock t \<in> set (issued (on_ScreenshotEvent env locked event))" for t
    using that no_acquire [of t] by (auto simp: issued_cases split: if_splits)
  have refused_calls:
    "issued (on_ScreenshotEvent env locked event) = [AcquireLock 2, RemoveHighlights]"
    if "\<not> fst (snd (try_block env locked event))"
    using that by (auto simp: lock_acquired_iff issued_cases)
  have refused_outcome:
    "outcome (on_ScreenshotEvent env locked event)
       = (if cancel_at_acquire env \<or> highlights_raises env = Some CancelledError
          then Inl CancelledError
          else Inl (BrowserError
                 ''[ScreenshotWatchdog] Another screenshot is already in progress''))"
    if "\<not> fst (snd (try_block env locked event))"
  proof -
    from that have "cancel_at_acquire env \<or> (locked \<and> holder env = KeepsHolding)"
      by (simp add: lock_acquired_iff)
    then show ?thesis
      by (auto simp: on_ScreenshotEvent_def try_block_def split: option.splits shot_exn.splits)
  qed
  have carried: "t = ?budget"
    if "CaptureScreenshot tid t \<in> set (issued (on_ScreenshotEvent env locked event))" for tid t
  proof -
    from that have "CaptureScreenshot tid t \<in> set (snd (capture env event))"
      by (auto simp: issued_cases split: if_splits)
    then have "t = capture_timeout event"
      by (rule capture_commands)
    with budget show ?thesis
      by simp
  qed
  have sent: "CaptureScreenshot tid ?budget \<in> set (issued (on_ScreenshotEvent env locked event))"
    if "fst (snd (try_block env locked event))
          \<and> select_target env = Inr tid \<and> session_raises_shot env = None" for tid
  proof -
    from that have "CaptureScreenshot tid (capture_timeout event)
        \<in> set (issued (on_ScreenshotEvent env locked event))"
      by (auto simp: lock_acquired_iff issued_cases capture_def)
    with budget show ?thesis
      by simp
  qed
  show ?thesis
  proof (intro conjI allI impI)
    show "hd (issued (on_ScreenshotEvent env locked event)) = AcquireLock 2"
      by (rule first)
  next
    fix t
    assume "AcquireLock t \<in> set (issued (on_ScreenshotEvent env locked event))"
    then show "t = 2"
      by (rule only)
  next
    assume "\<not> fst (snd (try_block env locked event))"
    then show "issued (on_ScreenshotEvent env locked event) = [AcquireLock 2, RemoveHighlights]"
      by (rule refused_calls)
  next
    assume "\<not> fst (snd (try_block env locked event))"
    then show "outcome (on_ScreenshotEvent env locked event)
       = (if cancel_at_acquire env \<or> highlights_raises env = Some CancelledError
          then Inl CancelledError
          else Inl (BrowserError
                 ''[ScreenshotWatchdog] Another screenshot is already in progress''))"
      by (rule refused_outcome)
  next
    fix tid t
    assume "CaptureScreenshot tid t \<in> set (issued (on_ScreenshotEvent env locked event))"
    then show "t = ?budget"
      by (rule carried)
  next
    fix tid
    assume "fst (snd (try_block env locked event))
          \<and> select_target env = Inr tid \<and> session_raises_shot env = None"
    then show "CaptureScreenshot tid ?budget \<in> set (issued (on_ScreenshotEvent env locked event))"
      by (rule sent)
  qed
qed

text \<open>
  A request that meets a held gate, and requests on a free gate with the overall
  timeouts \<open>10\<close>, none and \<open>5 / 2\<close>.
\<close>

theorem capture_gate_budget_witness:
  "issued (on_ScreenshotEvent calm_env True \<lparr>event_timeout = Some 10\<rparr>)
     = [AcquireLock 2, RemoveHighlights]
   \<and> outcome (on_ScreenshotEvent calm_env True \<lparr>event_timeout = Some 10\<rparr>)
     = Inl (BrowserError ''[ScreenshotWatchdog] Another screenshot is already in progress'')
   \<and> CaptureScreenshot ''T1'' 8 \<in> set (issued (on_ScreenshotEvent calm_env False \<lparr>event_timeout = Some 10\<rparr>))
   \<and> CaptureScreenshot ''T1'' 13 \<in> set (issued (on_ScreenshotEvent calm_env False \<lparr>event_timeout = None\<rparr>))
   \<and> CaptureScreenshot ''T1'' 1 \<in> set (issued (on_ScreenshotEvent calm_env False \<lparr>event_timeout = Some (5 / 2)\<rparr>))"
proof -
  have refused: "\<not> fst (snd (try_block calm_env True \<lparr>event_timeout = Some 10\<rparr>))"
    by (simp add: lock_acquired_iff calm_env_def)
  have quiet: "\<not> (cancel_at_acquire calm_env \<or> highlights_raises calm_env = Some CancelledError)"
    by (simp add: calm_env_def)
  have taken: "fst (snd (try_block calm_env False event))
      \<and> select_target calm_env = Inr ''T1'' \<and> session_raises_shot calm_env = None" for event
    by (simp add: lock_acquired_iff calm_env_def select_target_def)
  note held = capture_gate_budget [of calm_env True "\<lparr>event_timeout = Some 10\<rparr>",
      THEN conjunct2, THEN conjunct2, THEN conjunct1, THEN mp, OF refused]
  note sent = capture_gate_budget [THEN conjunct2, THEN conjunct2, THEN conjunct2,
      THEN conjunct2, THEN spec, THEN mp, OF taken]
  from held quiet
  have "issued (on_ScreenshotEvent calm_env True \<lparr>event_timeout = Some 10\<rparr>)
          = [AcquireLock 2, RemoveHighlights]"
    and "outcome (on_ScreenshotEvent calm_env True \<lparr>event_timeout = Some 10\<rparr>)
          = Inl (BrowserError ''[ScreenshotWatchdog] Another screenshot is already in progress'')"
    by simp_all
  moreover from sent [of "\<lparr>event_timeout = Some 10\<rparr>"]
  have "CaptureScreenshot ''T1'' 8
          \<in> set (issued (on_ScreenshotEvent calm_env False \<lparr>event_timeout = Some 10\<rparr>))"
    by simp
  moreover from sent [of "\<lparr>event_timeout = None\<rparr>"]
  have "CaptureScreenshot ''T1'' 13
          \<in> set (issued (on_ScreenshotEvent calm_env False \<lparr>event_timeout = None\<rparr>))"
    by simp
  moreover from sent [of "\<lparr>event_timeout = Some (5 / 2)\<rparr>"]
  have "CaptureScreenshot ''T1'' 1
          \<in> set (issued (on_ScreenshotEvent calm_env False \<lparr>event_timeout = Some (5 / 2)\<rparr>))"
    by simp
  ultimately show ?thesis
    by (intro conjI)
qed

text \<open>
  Claim C7.  Whatever the collaborators do (so on every exit path: payload returned,
  contention, no page target, missing payload, timeout, cancellation, any other
  exception), a request that finds the gate free leaves it free; in general the gate is
  released exactly when this request had acquired it, and is otherwise left as it was.
  A request that follows one started on a free gate acquires the gate, unless it is
  itself cancelled while acquiring.
\<close>

theorem gate_released_on_every_exit:
  "locked_after (on_ScreenshotEvent env False event) = False
   \<and> locked_after (on_ScreenshotEvent env locked event)
       = (if \<not> cancel_at_acquire env \<and> \<not> (locked \<and> holder env = KeepsHolding) then False else locked)
   \<and> (ReleaseLock \<in> set (issued (on_ScreenshotEvent env locked event))
        \<longleftrightarrow> \<not> cancel_at_acquire env \<and> \<not> (locked \<and> holder env = KeepsHolding))
   \<and> (\<not> cancel_at_acquire env' \<longrightarrow>
        fst (snd (try_block env' (locked_after (on_ScreenshotEvent env False event)) event')) = True)"
proof -
  have no_release: "ReleaseLock \<notin> set (snd (capture env event))"
    by (auto simp: capture_def split: sum.splits option.splits)
  have after: "locked_after (on_ScreenshotEvent env locked event)
       = (if \<not> cancel_at_acquire env \<and> \<not> (locked \<and> holder env = KeepsHolding) then False else locked)"
    for locked
    by (auto simp: on_ScreenshotEvent_def try_block_def release_def split: prod.splits)
  show ?thesis
    using no_release after [of locked] after [of False]
    by (auto simp: issued_cases try_block_def split: prod.splits)
qed


text \<open>
  The exits of claim C7 one by one, each followed by a second request on the gate as the
  first left it: payload returned, no page target, missing payload, capture timeout,
  cancellation during the capture.
\<close>

theorem gate_released_on_every_exit_witness:
  "outcome (on_ScreenshotEvent calm_env False \<lparr>event_timeout = None\<rparr>) = Inr ''iVBORw0KGgo=''
   \<and> locked_after (on_ScreenshotEvent calm_env False \<lparr>event_timeout = None\<rparr>) = False
   \<and> locked_after (on_ScreenshotEvent (calm_env\<lparr>focused_target := None, page_targets := []\<rparr>)
         False \<lparr>event_timeout = None\<rparr>) = False
   \<and> locked_after (on_ScreenshotEvent (calm_env\<lparr>capture_outcome := Inr []\<rparr>)
         False \<lparr>event_timeout = None\<rparr>) = False
   \<and> locked_after (on_ScreenshotEvent (calm_env\<lparr>capture_outcome := Inl TimeoutError\<rparr>)
         False \<lparr>event_timeout = None\<rparr>) = False
   \<and> locked_after (on_ScreenshotEvent (calm_env\<lparr>capture_outcome := Inl CancelledError\<rparr>)
         False \<lparr>event_timeout = None\<rparr>) = False
   \<and> fst (snd (try_block calm_env
         (locked_after (on_ScreenshotEvent (calm_env\<lparr>capture_outcome := Inl TimeoutError\<rparr>)
            False \<lparr>event_timeout = None\<rparr>)) \<lparr>event_timeout = None\<rparr>)) = True"
  using gate_released_on_every_exit
          [of calm_env "\<lparr>event_timeout = None\<rparr>" False calm_env "\<lparr>event_timeout = None\<rparr>"]
        gate_released_on_every_exit
          [of "calm_env\<lparr>focused_target := None, page_targets := []\<rparr>" "\<lparr>event_timeout = None\<rparr>"
              False calm_env "\<lparr>event_timeout = None\<rparr>"]
        gate_released_on_every_exit
          [of "calm_env\<lparr>capture_outcome := Inr []\<rparr>" "\<lparr>event_timeout = None\<rparr>"
              False calm_env "\<lparr>event_timeout = None\<rparr>"]
        gate_released_on_every_exit
          [of "calm_env\<lparr>capture_outcome := Inl TimeoutError\<rparr>" "\<lparr>event_timeout = None\<rparr>"
              False calm_env "\<lparr>event_timeout = None\<rparr>"]
        gate_released_on_every_exit
          [of "calm_env\<lparr>capture_outcome := Inl CancelledError\<rparr>" "\<lparr>event_timeout = None\<rparr>"
              False calm_env "\<lparr>event_timeout = None\<rparr>"]
  by (simp add: calm_env_def on_ScreenshotEvent_def try_block_def capture_def select_target_def
        release_def)

section \<open>Initiator stack flattening\<close>

lemma walk_stack_none: "walk_stack PNone acc = Inr acc"
  by (subst walk_stack.simps) simp

text \<open>
  On a well-formed chain the loop returns the frames of the stacks in chain order,
  innermost first.
\<close>

lemma walk_stack_chain: "walk_stack (stack_chain fss) acc = Inr (acc @ concat fss)"
proof (induction fss arbitrary: acc rule: stack_chain.induct)
  case 1
  show ?case
    by (simp add: walk_stack_none)
next
  case (2 fs)
  show ?case
    by (subst walk_stack.simps) (cases fs; simp add: dict_get_def py_or_def walk_stack_none)
next
  case (3 fs gs rest)
  show ?case
    by (subst walk_stack.simps) (cases fs; simp add: dict_get_def py_or_def 3)
qed

lemma flatten_chain:
  "extract_initiator_frames (PDict [(''type'', PStr ''script''), (''stack'', stack_chain (fs # fss))])
     = Inr (concat (fs # fss))"
proof -
  have "truthy (stack_chain (fs # fss))"
    by (cases fss) simp_all
  then show ?thesis
    using walk_stack_chain [of "fs # fss" "[]"]
    by (simp add: extract_initiator_frames_def dict_get_def py_or_def)
qed

lemma flatten_three_levels:
  "extract_initiator_frames
     (PDict [(''type'', PStr ''script''), (''stack'', stack_chain [[a1, a2], [b1], [c1, c2]])])
     = Inr [a1, a2, b1, c1, c2]"
  using flatten_chain [of "[a1, a2]" "[[b1], [c1, c2]]"] by simp

text \<open>An initiator that is not a dict yields the empty sequence.\<close>

lemma non_dict_initiator:
  "\<forall>kvs. initiator \<noteq> PDict kvs \<Longrightarrow> extract_initiator_frames initiator = Inr []"
  by (cases initiator) (simp_all add: extract_initiator_frames_def)

text \<open>
  Claim C4 says that flattening yields an empty sequence, and never an error, for every
  malformed initiator.  The code raises on a dict initiator whose stack, or whose parent
  stack, is a truthy value that is not a dict (\<^verbatim>\<open>AttributeError\<close> at line 290, before the
  \<^verbatim>\<open>isinstance\<close> test of line 292 is reached), and on call frames that are not iterable
  (\<^verbatim>\<open>TypeError\<close> at line 291).
\<close>

theorem extract_initiator_frames_raises:
  "extract_initiator_frames (PDict [(''stack'', PStr ''x'')]) = Inl AttributeError
   \<and> extract_initiator_frames
        (PDict [(''stack'', PDict [(''callFrames'', PList [f]), (''parent'', PStr ''x'')])])
       = Inl AttributeError
   \<and> extract_initiator_frames (PDict [(''stack'', PDict [(''callFrames'', PInt 5)])])
       = Inl TypeError"
  by (simp add: extract_initiator_frames_def dict_get_def py_or_def walk_stack.simps)

section \<open>Query layer\<close>

text \<open>
  The substring test of the code against its meaning: \<^verbatim>\<open>p in s\<close> holds exactly when
  \<^verbatim>\<open>s\<close> is some text, then \<^verbatim>\<open>p\<close>, then some text.
\<close>

lemma starts_with_iff: "starts_with s p \<longleftrightarrow> (\<exists>b. s = p @ b)"
  by (induction s p rule: starts_with.induct) auto

lemma str_in_iff: "str_in p s \<longleftrightarrow> (\<exists>a b. s = a @ p @ b)"
proof (induction s)
  case Nil
  show ?case by auto
next
  case (Cons c s)
  show ?case
  proof
    assume "str_in p (c # s)"
    then consider "starts_with (c # s) p" | "str_in p s"
      by auto
    then show "\<exists>a b. c # s = a @ p @ b"
    proof cases
      case 1
      then obtain b where "c # s = p @ b"
        by (auto simp: starts_with_iff)
      then have "c # s = [] @ p @ b"
        by simp
      then show ?thesis
        by blast
    next
      case 2
      with Cons obtain a b where "s = a @ p @ b"
        by auto
      then have "c # s = (c # a) @ p @ b"
        by simp
      then show ?thesis
        by blast
    qed
  next
    assume "\<exists>a b. c # s = a @ p @ b"
    then obtain a b where ab: "c # s = a @ p @ b"
      by auto
    show "str_in p (c # s)"
    proof (cases a)
      case Nil
      with ab have "starts_with (c # s) p"
        by (auto simp: starts_with_iff)
      then show ?thesis
        by simp
    next
      case (Cons d a')
      with ab have "s = a' @ p @ b"
        by simp
      with Cons.IH have "str_in p s"
        by auto
      then show ?thesis
        by simp
    qed
  qed
qed

text \<open>The first hit of a scan from the newest entry backward is the last hit in arrival order.\<close>

lemma find_rev_Some:
  "find P (rev xs) = Some e \<longleftrightarrow>
     (\<exists>pre post. xs = pre @ e # post \<and> P e \<and> (\<forall>x\<in>set post. \<not> P x))"
proof (induction xs rule: rev_induct)
  case Nil
  show ?case by simp
next
  case (snoc x xs)
  show ?case
  proof (cases "P x")
    case True
    have "(\<exists>pre post. xs @ [x] = pre @ e # post \<and> P e \<and> (\<forall>y\<in>set post. \<not> P y)) \<longleftrightarrow> e = x"
    proof
      assume "\<exists>pre post. xs @ [x] = pre @ e # post \<and> P e \<and> (\<forall>y\<in>set post. \<not> P y)"
      then obtain pre post where *: "xs @ [x] = pre @ e # post" "\<forall>y\<in>set post. \<not> P y"
        by auto
      show "e = x"
      proof (cases post rule: rev_cases)
        case Nil
        with * show ?thesis by simp
      next
        case (snoc post' z)
        with *(1) have "xs @ [x] = (pre @ e # post') @ [z]"
          by simp
        then have "z = x"
          by (simp only: append1_eq_conv)
        with snoc *(2) True show ?thesis
          by simp
      qed
    next
      assume "e = x"
      with True have "xs @ [x] = xs @ e # [] \<and> P e \<and> (\<forall>y\<in>set []. \<not> P y)"
        by simp
      then show "\<exists>pre post. xs @ [x] = pre @ e # post \<and> P e \<and> (\<forall>y\<in>set post. \<not> P y)"
        by blast
    qed
    with True show ?thesis
      by auto
  next
    case False
    have "(\<exists>pre post. xs @ [x] = pre @ e # post \<and> P e \<and> (\<forall>y\<in>set post. \<not> P y))
          \<longleftrightarrow> (\<exists>pre post. xs = pre @ e # post \<and> P e \<and> (\<forall>y\<in>set post. \<not> P y))"
    proof
      assume "\<exists>pre post. xs @ [x] = pre @ e # post \<and> P e \<and> (\<forall>y\<in>set post. \<not> P y)"
      then obtain pre post where
        *: "xs @ [x] = pre @ e # post" "P e" "\<forall>y\<in>set post. \<not> P y"
        by auto
      show "\<exists>pre post. xs = pre @ e # post \<and> P e \<and> (\<forall>y\<in>set post. \<not> P y)"
      proof (cases post rule: rev_cases)
        case Nil
        with *(1) have "e = x" by simp
        with *(2) False show ?thesis by simp
      next
        case (snoc post' z)
        with *(1) have "xs @ [x] = (pre @ e # post') @ [z]"
          by simp
        then have "xs = pre @ e # post'"
          by (simp only: append1_eq_conv)
        with snoc *(2,3) show ?thesis
          by auto
      qed
    next
      assume "\<exists>pre post. xs = pre @ e # post \<and> P e \<and> (\<forall>y\<in>set post. \<not> P y)"
      then obtain pre post where
        *: "xs = pre @ e # post" "P e" "\<forall>y\<in>set post. \<not> P y"
        by auto
      with False have "xs @ [x] = pre @ e # (post @ [x]) \<and> P e \<and> (\<forall>y\<in>set (post @ [x]). \<not> P y)"
        by simp
      then show "\<exists>pre post. xs @ [x] = pre @ e # post \<and> P e \<and> (\<forall>y\<in>set post. \<not> P y)"
        by blast
    qed
    with False snoc show ?thesis
      by simp
  qed
qed

lemma find_rev_None: "find P (rev xs) = None \<longleftrightarrow> (\<forall>x\<in>set xs. \<not> P x)"
  by (auto simp: find_None_iff)

text \<open>
  Claim C8.  \<^verbatim>\<open>find_entry\<close> returns an entry exactly when that entry is in the target's
  buffer, its lower-cased URL contains the lower-cased pattern, and no entry inserted
  after it does; it returns null exactly when no entry of the buffer matches, and in
  particular when the target is unknown.
\<close>

theorem find_entry_last_match:
  "(find_entry w target_id pattern = Some e \<longleftrightarrow>
      (\<exists>older newer.
          get_traffic_log w target_id = older @ e # newer
          \<and> (\<exists>a b. lower (url e) = a @ lower pattern @ b)
          \<and> (\<forall>x\<in>set newer. \<not> (\<exists>a b. lower (url x) = a @ lower pattern @ b))))
   \<and> (find_entry w target_id pattern = None \<longleftrightarrow>
        (\<forall>x\<in>set (get_traffic_log w target_id).
            \<not> (\<exists>a b. lower (url x) = a @ lower pattern @ b)))
   \<and> (network_logs w target_id = None \<longrightarrow> find_entry w target_id pattern = None)"
  unfolding find_entry_def Let_def find_rev_Some find_rev_None str_in_iff
  by (simp add: get_traffic_log_def)

text \<open>
  On the sample store the pattern \<^verbatim>\<open>SEARCH\<close> matches the first two entries and the second
  one is returned; a pattern that occurs nowhere, and an unknown target, give null.
\<close>

theorem find_entry_last_match_witness:
  "find_entry sample_watchdog ''T1'' ''SEARCH'' = Some (sample_log ! 1)
   \<and> (\<exists>older newer.
          get_traffic_log sample_watchdog ''T1'' = older @ (sample_log ! 1) # newer
          \<and> (\<exists>a b. lower (url (sample_log ! 1)) = a @ lower ''SEARCH'' @ b)
          \<and> (\<forall>x\<in>set newer. \<not> (\<exists>a b. lower (url x) = a @ lower ''SEARCH'' @ b)))
   \<and> find_entry sample_watchdog ''T1'' ''logout'' = None
   \<and> find_entry sample_watchdog ''T9'' ''search'' = None"
proof -
  have found: "find_entry sample_watchdog ''T1'' ''SEARCH'' = Some (sample_log ! 1)"
    by code_simp
  have missing: "find_entry sample_watchdog ''T1'' ''logout'' = None"
    by code_simp
  have unknown: "network_logs sample_watchdog ''T9'' = None"
    by (simp add: sample_watchdog_def)
  show ?thesis
    using find_entry_last_match [of sample_watchdog "''T1''" "''SEARCH''" "sample_log ! 1"]
          find_entry_last_match [of sample_watchdog "''T9''" "''search''" "sample_log ! 1"]
          found missing unknown
    by simp
qed

section \<open>Target attachment\<close>

text \<open>The \<^verbatim>\<open>try\<close> block marks the target monitored exactly when it ends without exception.\<close>

lemma attach_body_monitored:
  "attach_body env w target_id = (r, w') \<Longrightarrow>
     monitored_targets w' =
       (if r = None then insert target_id (monitored_targets w) else monitored_targets w)"
  by (auto simp: attach_body_def register_def new_deque_def
           split: option.splits sum.splits if_splits)

lemma attach_body_raises:
  "session_raises env \<noteq> None \<or> enable_raises env \<noteq> None \<or> (\<exists>cb. register_raises env cb \<noteq> None)
   \<Longrightarrow> fst (attach_body env w target_id) \<noteq> None"
proof -
  assume a: "session_raises env \<noteq> None \<or> enable_raises env \<noteq> None
             \<or> (\<exists>cb. register_raises env cb \<noteq> None)"
  have cbs: "cb = OnRequest \<or> cb = OnResponse \<or> cb = OnFailure \<or> cb = OnLoadingFinished" for cb
    by (cases cb) simp_all
  from a cbs have "session_raises env \<noteq> None \<or> enable_raises env \<noteq> None
      \<or> register_raises env OnRequest \<noteq> None \<or> register_raises env OnResponse \<noteq> None
      \<or> register_raises env OnFailure \<noteq> None \<or> register_raises env OnLoadingFinished \<noteq> None"
    by metis
  then show ?thesis
    by (auto simp: attach_body_def register_def new_deque_def
             split: option.splits sum.splits if_splits)
qed

lemma attach_body_quiet:
  "session_raises env = None \<Longrightarrow> enable_raises env = None \<Longrightarrow> \<forall>cb. register_raises env cb = None
   \<Longrightarrow> target_id \<in> dom (network_logs w) \<or> 0 \<le> max_logs_per_tab w
   \<Longrightarrow> fst (attach_body env w target_id) = None
       \<and> cdp_handlers (snd (attach_body env w target_id)) =
           cdp_handlers w @ [(target_id, OnRequest), (target_id, OnResponse),
                             (target_id, OnFailure), (target_id, OnLoadingFinished)]"
  by (auto simp: attach_body_def register_def new_deque_def split: option.splits sum.splits)

lemma attach_body_keeps:
  "attach_body env w target_id = (r, w') \<Longrightarrow>
     max_logs_per_tab w' = max_logs_per_tab w \<and> dom (network_logs w) \<subseteq> dom (network_logs w')"
  by (auto simp: attach_body_def register_def new_deque_def
           split: option.splits sum.splits if_splits)

lemma attach_to_target_snd:
  "snd (attach_to_target env w target_id) =
     (if target_id \<in> monitored_targets w then w else snd (attach_body env w target_id))"
  by (auto simp: attach_to_target_def split: prod.splits option.splits)

lemma attach_to_target_fst: "fst (attach_to_target env w target_id) = None"
  by (auto simp: attach_to_target_def split: prod.splits option.splits)

text \<open>
  Claim C5.  \<^verbatim>\<open>attach_to_target\<close> never raises to its caller.  On a target that is
  already monitored it returns at once and changes nothing, so no callback is registered
  a second time.  If session creation, the enable command or a registration raises, the
  set of monitored targets is left as it was, and a later call in which nothing raises
  runs the sequence again and marks the target monitored (the bucket exists by then or
  can be created).
\<close>

theorem attach_idempotent_absorbing:
  "fst (attach_to_target env w target_id) = None
   \<and> (target_id \<in> monitored_targets w \<longrightarrow> attach_to_target env w target_id = (None, w))
   \<and> (target_id \<notin> monitored_targets w
        \<and> (session_raises env \<noteq> None \<or> enable_raises env \<noteq> None
             \<or> (\<exists>cb. register_raises env cb \<noteq> None)) \<longrightarrow>
        monitored_targets (snd (attach_to_target env w target_id)) = monitored_targets w
        \<and> (session_raises env' = None \<and> enable_raises env' = None
             \<and> (\<forall>cb. register_raises env' cb = None)
             \<and> (target_id \<in> dom (network_logs w) \<or> 0 \<le> max_logs_per_tab w) \<longrightarrow>
             target_id \<in> monitored_targets
               (snd (attach_to_target env' (snd (attach_to_target env w target_id)) target_id))))"
proof (intro conjI impI)
  show "fst (attach_to_target env w target_id) = None"
    by (rule attach_to_target_fst)
next
  assume "target_id \<in> monitored_targets w"
  then show "attach_to_target env w target_id = (None, w)"
    by (simp add: attach_to_target_def)
next
  assume a: "target_id \<notin> monitored_targets w
        \<and> (session_raises env \<noteq> None \<or> enable_raises env \<noteq> None
             \<or> (\<exists>cb. register_raises env cb \<noteq> None))"
  obtain r w1 where body: "attach_body env w target_id = (r, w1)"
    by (cases "attach_body env w target_id")
  from a attach_body_raises [of env w target_id] body have "r \<noteq> None"
    by simp
  with attach_body_monitored [OF body] have "monitored_targets w1 = monitored_targets w"
    by simp
  with a body show "monitored_targets (snd (attach_to_target env w target_id)) = monitored_targets w"
    by (simp add: attach_to_target_snd)
next
  assume a: "target_id \<notin> monitored_targets w
        \<and> (session_raises env \<noteq> None \<or> enable_raises env \<noteq> None
             \<or> (\<exists>cb. register_raises env cb \<noteq> None))"
    and q: "session_raises env' = None \<and> enable_raises env' = None
             \<and> (\<forall>cb. register_raises env' cb = None)
             \<and> (target_id \<in> dom (network_logs w) \<or> 0 \<le> max_logs_per_tab w)"
  obtain r w1 where body: "attach_body env w target_id = (r, w1)"
    by (cases "attach_body env w target_id")
  from a attach_body_raises [of env w target_id] body have "r \<noteq> None"
    by simp
  with attach_body_monitored [OF body] a have unmarked: "target_id \<notin> monitored_targets w1"
    by simp
  from attach_body_keeps [OF body] q
  have ready: "target_id \<in> dom (network_logs w1) \<or> 0 \<le> max_logs_per_tab w1"
    by auto
  obtain r2 w2 where retry: "attach_body env' w1 target_id = (r2, w2)"
    by (cases "attach_body env' w1 target_id")
  from q ready attach_body_quiet [of env' target_id w1] retry have "r2 = None"
    by simp
  with attach_body_monitored [OF retry] have "target_id \<in> monitored_targets w2"
    by simp
  with a body unmarked retry
  show "target_id \<in> monitored_targets
               (snd (attach_to_target env' (snd (attach_to_target env w target_id)) target_id))"
    by (simp add: attach_to_target_snd)
qed

text \<open>
  Attaching the monitored target \<^verbatim>\<open>T1\<close> again changes nothing; attaching \<^verbatim>\<open>T2\<close> with a
  failing enable command leaves it unmonitored, and the next attempt succeeds.
\<close>

theorem attach_idempotent_absorbing_witness:
  "attach_to_target (quiet_env\<lparr>enable_raises := Some (OtherError ''enable failed'')\<rparr>)
       sample_watchdog ''T1''
     = (None, sample_watchdog)
   \<and> fst (attach_to_target (quiet_env\<lparr>enable_raises := Some (OtherError ''enable failed'')\<rparr>)
             fresh_watchdog ''T2'') = None
   \<and> monitored_targets
        (snd (attach_to_target (quiet_env\<lparr>enable_raises := Some (OtherError ''enable failed'')\<rparr>)
                fresh_watchdog ''T2'')) = {}
   \<and> ''T2'' \<in> monitored_targets
        (snd (attach_to_target quiet_env
           (snd (attach_to_target (quiet_env\<lparr>enable_raises := Some (OtherError ''enable failed'')\<rparr>)
                   fresh_watchdog ''T2'')) ''T2''))"
  using attach_idempotent_absorbing
          [of "quiet_env\<lparr>enable_raises := Some (OtherError ''enable failed'')\<rparr>"
              sample_watchdog "''T1''" quiet_env]
        attach_idempotent_absorbing
          [of "quiet_env\<lparr>enable_raises := Some (OtherError ''enable failed'')\<rparr>"
              fresh_watchdog "''T2''" quiet_env]
  by (simp add: quiet_env_def sample_watchdog_def fresh_watchdog_def)

section \<open>Capacity and eviction of the history store\<close>

lemma deque_append_bounded: "length (items (deque_append d x)) \<le> maxlen d"
  by (simp add: deque_append_def Let_def)

lemma deque_append_maxlen: "maxlen (deque_append d x) = maxlen d"
  by (simp add: deque_append_def Let_def)

lemma build_entry_request_id: "build_entry rtype event = Inr e \<Longrightarrow> request_id e = rq_requestId event"
  by (auto simp: build_entry_def Let_def split: sum.splits)

text \<open>
  One delivery to \<^verbatim>\<open>on_request\<close>: the event is ignored, or the callback raises, or one
  entry is appended to the target's buffer.
\<close>

lemma on_request_cases:
  assumes "network_logs w target_id = Some d"
  shows "(on_request w target_id event = Inr w
          \<and> (case rq_type event of Some t \<Rightarrow> t | None \<Rightarrow> ''Unknown'') \<in> ignored_resource_types w)
       \<or> (\<exists>err. on_request w target_id event = Inl err)
       \<or> (\<exists>e. build_entry (case rq_type event of Some t \<Rightarrow> t | None \<Rightarrow> ''Unknown'') event = Inr e
              \<and> (case rq_type event of Some t \<Rightarrow> t | None \<Rightarrow> ''Unknown'') \<notin> ignored_resource_types w
              \<and> on_request w target_id event
                  = Inr (w\<lparr>network_logs := (network_logs w)(target_id \<mapsto> deque_append d e)\<rparr>))"
  using assms by (auto simp: on_request_def Let_def split: sum.splits)

lemma deliver_requests_bounded:
  "network_logs w target_id = Some d \<Longrightarrow> length (items d) \<le> maxlen d \<Longrightarrow>
     \<exists>d'. network_logs (deliver_requests w target_id events) target_id = Some d'
          \<and> maxlen d' = maxlen d \<and> length (items d') \<le> maxlen d'"
proof (induction events arbitrary: w d)
  case Nil
  then show ?case by simp
next
  case (Cons event events)
  from on_request_cases [OF Cons.prems(1), of event]
  consider "on_request w target_id event = Inr w"
    | err where "on_request w target_id event = Inl err"
    | e where "on_request w target_id event
                  = Inr (w\<lparr>network_logs := (network_logs w)(target_id \<mapsto> deque_append d e)\<rparr>)"
    by blast
  then show ?case
  proof cases
    case 1
    with Cons.IH [OF Cons.prems] show ?thesis by simp
  next
    case 2
    with Cons.IH [OF Cons.prems] show ?thesis by simp
  next
    case 3
    let ?w = "w\<lparr>network_logs := (network_logs w)(target_id \<mapsto> deque_append d e)\<rparr>"
    have "network_logs ?w target_id = Some (deque_append d e)"
      by simp
    from Cons.IH [OF this] deque_append_bounded [of d e] 3 show ?thesis
      by (simp add: deque_append_maxlen)
  qed
qed

text \<open>Keeping the last \<open>m\<close> items after every append keeps the last \<open>m\<close> of all.\<close>

lemma window_step:
  "drop (length (drop (length A - m) A) + length B - m) (drop (length A - m) A @ B)
     = drop (length A + length B - m) (A @ B)"
proof (cases "length A \<le> m")
  case True
  then show ?thesis by simp
next
  case False
  then have "length A + length B - m = (length A - m) + length B"
    by simp
  moreover from False have "length (drop (length A - m) A) + length B - m = length B"
    by simp
  ultimately show ?thesis
    by (simp add: add.commute)
qed

lemma deliver_requests_ids:
  "network_logs w target_id = Some d \<Longrightarrow> length (items d) \<le> maxlen d \<Longrightarrow>
   \<forall>event\<in>set events.
      (case rq_type event of Some t \<Rightarrow> t | None \<Rightarrow> ''Unknown'') \<notin> ignored_resource_types w
      \<and> (\<exists>frames. extract_initiator_frames (rq_initiator event) = Inr frames) \<Longrightarrow>
   \<exists>d'. network_logs (deliver_requests w target_id events) target_id = Some d'
        \<and> maxlen d' = maxlen d
        \<and> map request_id (items d')
            = drop (length (items d) + length events - maxlen d)
                (map request_id (items d) @ map rq_requestId events)"
proof (induction events arbitrary: w d)
  case Nil
  then show ?case by simp
next
  case (Cons event events)
  let ?rtype = "case rq_type event of Some t \<Rightarrow> t | None \<Rightarrow> ''Unknown''"
  from Cons.prems(3) obtain frames where
    kept: "?rtype \<notin> ignored_resource_types w"
    and frames: "extract_initiator_frames (rq_initiator event) = Inr frames"
    by auto
  from frames obtain e where built: "build_entry ?rtype event = Inr e"
    by (auto simp: build_entry_def Let_def)
  let ?d = "deque_append d e"
  let ?w = "w\<lparr>network_logs := (network_logs w)(target_id \<mapsto> ?d)\<rparr>"
  from kept built Cons.prems(1) have step: "on_request w target_id event = Inr ?w"
    by (simp add: on_request_def Let_def)
  have logs: "network_logs ?w target_id = Some ?d"
    by simp
  have rest: "\<forall>event\<in>set events.
      (case rq_type event of Some t \<Rightarrow> t | None \<Rightarrow> ''Unknown'') \<notin> ignored_resource_types ?w
      \<and> (\<exists>frames. extract_initiator_frames (rq_initiator event) = Inr frames)"
    using Cons.prems(3) by simp
  have bounded: "length (items ?d) \<le> maxlen ?d"
    by (simp add: deque_append_bounded deque_append_maxlen)
  from Cons.IH [OF logs bounded rest] obtain d' where
    d': "network_logs (deliver_requests ?w target_id events) target_id = Some d'"
        "maxlen d' = maxlen ?d"
        "map request_id (items d')
            = drop (length (items ?d) + length events - maxlen ?d)
                (map request_id (items ?d) @ map rq_requestId events)"
    by blast
  let ?A = "map request_id (items d) @ [rq_requestId event]"
  let ?B = "map rq_requestId events"
  have "items ?d = drop (length (items d @ [e]) - maxlen d) (items d @ [e])"
    by (simp add: deque_append_def Let_def)
  then have "map request_id (items ?d)
      = drop (length (items d @ [e]) - maxlen d) (map request_id (items d @ [e]))"
    by (simp only: drop_map)
  then have ids: "map request_id (items ?d) = drop (length ?A - maxlen d) ?A"
    using build_entry_request_id [OF built] by simp
  have len: "length (items ?d) = length (drop (length ?A - maxlen d) ?A)"
    by (metis ids length_map)
  have "map request_id (items d')
          = drop (length (drop (length ?A - maxlen d) ?A) + length ?B - maxlen d)
              (drop (length ?A - maxlen d) ?A @ ?B)"
    by (simp only: d'(3) ids len deque_append_maxlen length_map)
  also have "\<dots> = drop (length ?A + length ?B - maxlen d) (?A @ ?B)"
    by (rule window_step)
  finally have "map request_id (items d')
      = drop (length (items d) + length (event # events) - maxlen d)
          (map request_id (items d) @ map rq_requestId (event # events))"
    by simp
  with d'(1,2) step show ?case
    by (simp add: deque_append_maxlen)
qed


lemma attach_creates_bucket:
  "target_id \<notin> monitored_targets w \<Longrightarrow> target_id \<notin> dom (network_logs w) \<Longrightarrow>
   session_raises env = None \<Longrightarrow> 0 \<le> max_logs_per_tab w \<Longrightarrow>
     network_logs (snd (attach_to_target env w target_id)) target_id
       = Some \<lparr>maxlen = nat (max_logs_per_tab w), items = []\<rparr>
     \<and> ignored_resource_types (snd (attach_to_target env w target_id)) = ignored_resource_types w"
  by (auto simp: attach_to_target_def attach_body_def register_def new_deque_def
           split: option.splits sum.splits prod.splits)

text \<open>
  Claim C2.  For every target with a buffer and every sequence of request events, the
  buffer never holds more entries than its capacity, which \<^verbatim>\<open>attach_to_target\<close> sets to
  \<^verbatim>\<open>max_logs_per_tab\<close> (200 by default).  When every event of the sequence produces an
  entry, the buffer holds the request ids of the last \<open>capacity\<close> arrivals in arrival
  order: after 205 dispatches into an empty buffer of capacity 200 it has length 200 and
  holds requests 6 to 205, the first five evicted.
\<close>

theorem history_store_bounded_fifo:
  "(network_logs w target_id = Some d \<and> length (items d) \<le> maxlen d \<longrightarrow>
      (\<exists>d'. network_logs (deliver_requests w target_id events) target_id = Some d'
            \<and> maxlen d' = maxlen d
            \<and> length (items d') \<le> maxlen d
            \<and> ((\<forall>event\<in>set events.
                   (case rq_type event of Some t \<Rightarrow> t | None \<Rightarrow> ''Unknown'')
                     \<notin> ignored_resource_types w
                   \<and> (\<exists>frames. extract_initiator_frames (rq_initiator event) = Inr frames)) \<longrightarrow>
                 map request_id (items d')
                   = drop (length (items d) + length events - maxlen d)
                       (map request_id (items d) @ map rq_requestId events)
                 \<and> (items d = [] \<and> maxlen d = 200 \<and> length events = 205 \<longrightarrow>
                      length (items d') = 200
                      \<and> map request_id (items d') = map rq_requestId (drop 5 events)))))
   \<and> (target_id \<notin> monitored_targets w \<and> target_id \<notin> dom (network_logs w)
        \<and> session_raises env = None \<and> 0 \<le> max_logs_per_tab w \<longrightarrow>
        network_logs (snd (attach_to_target env w target_id)) target_id
          = Some \<lparr>maxlen = nat (max_logs_per_tab w), items = []\<rparr>)"
proof (intro conjI impI)
  assume a: "network_logs w target_id = Some d \<and> length (items d) \<le> maxlen d"
  then obtain d' where
    d': "network_logs (deliver_requests w target_id events) target_id = Some d'"
        "maxlen d' = maxlen d" "length (items d') \<le> maxlen d'"
    using deliver_requests_bounded [of w target_id d events] by blast
  have "map request_id (items d')
          = drop (length (items d) + length events - maxlen d)
              (map request_id (items d) @ map rq_requestId events)
        \<and> (items d = [] \<and> maxlen d = 200 \<and> length events = 205 \<longrightarrow>
             length (items d') = 200
             \<and> map request_id (items d') = map rq_requestId (drop 5 events))"
    if kept: "\<forall>event\<in>set events.
                   (case rq_type event of Some t \<Rightarrow> t | None \<Rightarrow> ''Unknown'')
                     \<notin> ignored_resource_types w
                   \<and> (\<exists>frames. extract_initiator_frames (rq_initiator event) = Inr frames)"
  proof -
    from a kept d'(1) have ids: "map request_id (items d')
          = drop (length (items d) + length events - maxlen d)
              (map request_id (items d) @ map rq_requestId events)"
      using deliver_requests_ids [of w target_id d events] by auto
    have "length (items d') = 200 \<and> map request_id (items d') = map rq_requestId (drop 5 events)"
      if s: "items d = [] \<and> maxlen d = 200 \<and> length events = 205"
    proof -
      from ids s have *: "map request_id (items d') = map rq_requestId (drop 5 events)"
        by (simp add: drop_map)
      from * have "length (map request_id (items d')) = length (map rq_requestId (drop 5 events))"
        by (rule arg_cong)
      with s have "length (items d') = 200"
        by simp
      with * show ?thesis
        by simp
    qed
    with ids show ?thesis
      by blast
  qed
  with d' show "\<exists>d'. network_logs (deliver_requests w target_id events) target_id = Some d'
            \<and> maxlen d' = maxlen d
            \<and> length (items d') \<le> maxlen d
            \<and> ((\<forall>event\<in>set events.
                   (case rq_type event of Some t \<Rightarrow> t | None \<Rightarrow> ''Unknown'')
                     \<notin> ignored_resource_types w
                   \<and> (\<exists>frames. extract_initiator_frames (rq_initiator event) = Inr frames)) \<longrightarrow>
                 map request_id (items d')
                   = drop (length (items d) + length events - maxlen d)
                       (map request_id (items d) @ map rq_requestId events)
                 \<and> (items d = [] \<and> maxlen d = 200 \<and> length events = 205 \<longrightarrow>
                      length (items d') = 200
                      \<and> map request_id (items d') = map rq_requestId (drop 5 events)))"
    by auto
next
  assume "target_id \<notin> monitored_targets w \<and> target_id \<notin> dom (network_logs w)
        \<and> session_raises env = None \<and> 0 \<le> max_logs_per_tab w"
  then show "network_logs (snd (attach_to_target env w target_id)) target_id
          = Some \<lparr>maxlen = nat (max_logs_per_tab w), items = []\<rparr>"
    using attach_creates_bucket [of target_id w env] by simp
qed

text \<open>
  The scenario itself: a fresh watchdog attaches to \<^verbatim>\<open>T1\<close>, then 205 requests
  numbered 1 to 205 are dispatched.
\<close>

theorem history_store_bounded_fifo_witness:
  "length (get_traffic_log
      (deliver_requests (snd (attach_to_target quiet_env fresh_watchdog ''T1'')) ''T1''
         (map (\<lambda>i. sample_request (str_nat i)) [1..<206])) ''T1'') = 200
   \<and> map request_id (get_traffic_log
      (deliver_requests (snd (attach_to_target quiet_env fresh_watchdog ''T1'')) ''T1''
         (map (\<lambda>i. sample_request (str_nat i)) [1..<206])) ''T1'')
     = map str_nat [6..<206]"
proof -
  let ?w = "snd (attach_to_target quiet_env fresh_watchdog ''T1'')"
  let ?events = "map (\<lambda>i. sample_request (str_nat i)) [1..<206]"
  let ?d = "\<lparr>maxlen = 200, items = []\<rparr>"
  have fresh: "''T1'' \<notin> monitored_targets fresh_watchdog \<and> ''T1'' \<notin> dom (network_logs fresh_watchdog)
      \<and> session_raises quiet_env = None \<and> 0 \<le> max_logs_per_tab fresh_watchdog"
    by (simp add: fresh_watchdog_def quiet_env_def)
  then have bucket: "network_logs ?w ''T1'' = Some ?d"
    using history_store_bounded_fifo [of fresh_watchdog "''T1''" ?d "[]" quiet_env]
    by (simp add: fresh_watchdog_def)
  have ignored: "ignored_resource_types ?w = ignored_resource_types fresh_watchdog"
    using fresh attach_creates_bucket [of "''T1''" fresh_watchdog quiet_env] by simp
  have kept: "\<forall>event\<in>set ?events.
      (case rq_type event of Some t \<Rightarrow> t | None \<Rightarrow> ''Unknown'') \<notin> ignored_resource_types ?w
      \<and> (\<exists>frames. extract_initiator_frames (rq_initiator event) = Inr frames)"
    unfolding ignored
    by (auto simp: fresh_watchdog_def sample_request_def extract_initiator_frames_def)
  have ids: "map rq_requestId (drop 5 ?events) = map str_nat [6..<206]"
    by (simp add: drop_map sample_request_def comp_def)
  from bucket kept history_store_bounded_fifo [of ?w "''T1''" ?d ?events quiet_env]
  obtain d' where
    "network_logs (deliver_requests ?w ''T1'' ?events) ''T1'' = Some d'"
    "length (items d') = 200"
    "map request_id (items d') = map rq_requestId (drop 5 ?events)"
    by auto
  with ids show ?thesis
    by (simp add: get_traffic_log_def)
qed

section \<open>Updates of an entry\<close>

lemma get_traffic_log_mutate:
  "get_traffic_log (mutate_entry w target_id i f) target_id
     = (get_traffic_log w target_id)[i := f (get_traffic_log w target_id ! i)]"
  by (simp add: get_traffic_log_def mutate_entry_def split: option.splits)

text \<open>What each handler's assignments leave alone, and what they keep non-null.\<close>

lemma apply_response_keeps:
  "untouched_by (ResponseReceived event) e (apply_response r e)"
  "rs_status r \<noteq> None \<Longrightarrow> rs_statusText r \<noteq> None \<Longrightarrow> rs_mimeType r \<noteq> None \<Longrightarrow>
     no_field_retracted e (apply_response r e)"
  by (auto simp: never_written_same_def no_field_retracted_def apply_response_def
           split: option.splits)

lemma apply_failure_keeps:
  "untouched_by (LoadingFailed event) e (apply_failure event e)"
  "lf_errorText event \<noteq> None \<Longrightarrow> no_field_retracted e (apply_failure event e)"
  by (auto simp: never_written_same_def no_field_retracted_def apply_failure_def)

lemma apply_finished_keeps:
  "untouched_by (LoadingFinished event) e (apply_finished event e)"
  "fin_encodedDataLength event \<noteq> None \<Longrightarrow> fin_timestamp event \<noteq> None \<Longrightarrow>
     no_field_retracted e (apply_finished event e)"
  by (auto simp: never_written_same_def no_field_retracted_def apply_finished_def)

lemma never_written_same_refl: "never_written_same e e"
  by (simp add: never_written_same_def)

lemma never_written_same_trans:
  "never_written_same a b \<Longrightarrow> never_written_same b c \<Longrightarrow> never_written_same a c"
  by (simp add: never_written_same_def)

lemma untouched_by_refl: "untouched_by u e e"
  by (cases u) (simp_all add: never_written_same_refl)

lemma untouched_by_never_written: "untouched_by u e e' \<Longrightarrow> never_written_same e e'"
  by (cases u) simp_all

lemma no_field_retracted_refl: "no_field_retracted e e"
  by (simp add: no_field_retracted_def never_written_same_refl)

lemma no_field_retracted_trans:
  "no_field_retracted a b \<Longrightarrow> no_field_retracted b c \<Longrightarrow> no_field_retracted a c"
  using never_written_same_trans [of a b c] by (simp add: no_field_retracted_def)

text \<open>
  A handler leaves the buffer as it is, or rewrites one entry in place; the rewrite
  leaves alone what the handler does not assign and, when the event carries its values,
  makes no field null.
\<close>

lemma dispatch_log:
  "get_traffic_log (dispatch w target_id u) target_id = get_traffic_log w target_id
   \<or> (\<exists>i f. get_traffic_log (dispatch w target_id u) target_id
               = (get_traffic_log w target_id)[i := f (get_traffic_log w target_id ! i)]
             \<and> (\<forall>e. untouched_by u e (f e))
             \<and> (carries_values u \<longrightarrow> (\<forall>e. no_field_retracted e (f e))))"
proof (cases u)
  case (ResponseReceived event)
  show ?thesis
  proof (cases "priv_find_entry w target_id (rr_requestId event)")
    case None
    with ResponseReceived show ?thesis
      by (simp add: on_response_def)
  next
    case (Some i)
    let ?r = "case rr_response event of Some r \<Rightarrow> r | None \<Rightarrow> empty_response"
    have "carries_values u \<longrightarrow> (\<forall>e. no_field_retracted e (apply_response ?r e))"
      using ResponseReceived by (auto simp: apply_response_keeps(2) split: option.splits)
    moreover have "\<forall>e. untouched_by u e (apply_response ?r e)"
      unfolding ResponseReceived by (intro allI apply_response_keeps(1))
    moreover have "get_traffic_log (dispatch w target_id u) target_id
        = (get_traffic_log w target_id)[i := apply_response ?r (get_traffic_log w target_id ! i)]"
      using ResponseReceived Some by (simp add: on_response_def get_traffic_log_mutate)
    ultimately show ?thesis
      by blast
  qed
next
  case (LoadingFailed event)
  show ?thesis
  proof (cases "priv_find_entry w target_id (lf_requestId event)")
    case None
    with LoadingFailed show ?thesis
      by (simp add: on_failure_def)
  next
    case (Some i)
    have "carries_values u \<longrightarrow> (\<forall>e. no_field_retracted e (apply_failure event e))"
      using LoadingFailed by (simp add: apply_failure_keeps(2))
    moreover have "\<forall>e. untouched_by u e (apply_failure event e)"
      unfolding LoadingFailed by (intro allI apply_failure_keeps(1))
    moreover have "get_traffic_log (dispatch w target_id u) target_id
        = (get_traffic_log w target_id)[i := apply_failure event (get_traffic_log w target_id ! i)]"
      using LoadingFailed Some by (simp add: on_failure_def get_traffic_log_mutate)
    ultimately show ?thesis
      by blast
  qed
next
  case (LoadingFinished event)
  show ?thesis
  proof (cases "priv_find_entry w target_id (fin_requestId event)")
    case None
    with LoadingFinished show ?thesis
      by (simp add: on_loading_finished_def)
  next
    case (Some i)
    have "carries_values u \<longrightarrow> (\<forall>e. no_field_retracted e (apply_finished event e))"
      using LoadingFinished by (simp add: apply_finished_keeps(2))
    moreover have "\<forall>e. untouched_by u e (apply_finished event e)"
      unfolding LoadingFinished by (intro allI apply_finished_keeps(1))
    moreover have "get_traffic_log (dispatch w target_id u) target_id
        = (get_traffic_log w target_id)[i := apply_finished event (get_traffic_log w target_id ! i)]"
      using LoadingFinished Some by (simp add: on_loading_finished_def get_traffic_log_mutate)
    ultimately show ?thesis
      by blast
  qed
qed

lemma update_at:
  assumes "\<forall>e. R e (f e)" and "\<And>e. R e e" and "j < length xs"
  shows "R (xs ! j) (xs[i := f (xs ! i)] ! j)"
proof (cases "i = j")
  case True
  with assms(1,3) show ?thesis
    by simp
next
  case False
  with assms(2) show ?thesis
    by simp
qed

lemma dispatch_step:
  "length (get_traffic_log (dispatch w target_id u) target_id)
     = length (get_traffic_log w target_id)
   \<and> (\<forall>j<length (get_traffic_log w target_id).
        untouched_by u (get_traffic_log w target_id ! j)
          (get_traffic_log (dispatch w target_id u) target_id ! j)
        \<and> (carries_values u \<longrightarrow>
             no_field_retracted (get_traffic_log w target_id ! j)
               (get_traffic_log (dispatch w target_id u) target_id ! j)))"
proof -
  from dispatch_log [of w target_id u]
  consider "get_traffic_log (dispatch w target_id u) target_id = get_traffic_log w target_id"
    | i f where "get_traffic_log (dispatch w target_id u) target_id
               = (get_traffic_log w target_id)[i := f (get_traffic_log w target_id ! i)]"
        "\<forall>e. untouched_by u e (f e)"
        "carries_values u \<longrightarrow> (\<forall>e. no_field_retracted e (f e))"
    by blast
  then show ?thesis
  proof cases
    case 1
    then show ?thesis
      by (simp add: no_field_retracted_refl untouched_by_refl)
  next
    case 2
    have "untouched_by u (get_traffic_log w target_id ! j)
            ((get_traffic_log w target_id)[i := f (get_traffic_log w target_id ! i)] ! j)"
      if "j < length (get_traffic_log w target_id)" for j
      using 2(2) untouched_by_refl that by (rule update_at)
    moreover have "no_field_retracted (get_traffic_log w target_id ! j)
            ((get_traffic_log w target_id)[i := f (get_traffic_log w target_id ! i)] ! j)"
      if "j < length (get_traffic_log w target_id)" and "carries_values u" for j
    proof -
      from 2(3) that(2) have "\<forall>e. no_field_retracted e (f e)"
        by simp
      then show ?thesis
        using no_field_retracted_refl that(1) by (rule update_at)
    qed
    ultimately show ?thesis
      using 2(1) by simp
  qed
qed

lemma dispatch_all_same:
  "length (get_traffic_log (dispatch_all w target_id us) target_id)
     = length (get_traffic_log w target_id)
   \<and> (\<forall>j<length (get_traffic_log w target_id).
        never_written_same (get_traffic_log w target_id ! j)
          (get_traffic_log (dispatch_all w target_id us) target_id ! j))"
proof (induction us arbitrary: w)
  case Nil
  show ?case
    by (simp add: never_written_same_refl)
next
  case (Cons u us)
  note step = dispatch_step [of w target_id u]
  note rest = Cons.IH [of "dispatch w target_id u"]
  show ?case
  proof (intro conjI allI impI)
    show "length (get_traffic_log (dispatch_all w target_id (u # us)) target_id)
            = length (get_traffic_log w target_id)"
      using step rest by simp
  next
    fix j
    assume j: "j < length (get_traffic_log w target_id)"
    with step have a: "never_written_same (get_traffic_log w target_id ! j)
        (get_traffic_log (dispatch w target_id u) target_id ! j)"
      by (blast intro: untouched_by_never_written)
    from j step rest have b: "never_written_same
        (get_traffic_log (dispatch w target_id u) target_id ! j)
        (get_traffic_log (dispatch_all (dispatch w target_id u) target_id us) target_id ! j)"
      by simp
    from never_written_same_trans [OF a b]
    show "never_written_same (get_traffic_log w target_id ! j)
            (get_traffic_log (dispatch_all w target_id (u # us)) target_id ! j)"
      by simp
  qed
qed

lemma dispatch_all_monotone:
  "\<forall>u\<in>set us. carries_values u \<Longrightarrow> j < length (get_traffic_log w target_id) \<Longrightarrow>
     no_field_retracted (get_traffic_log w target_id ! j)
       (get_traffic_log (dispatch_all w target_id us) target_id ! j)"
proof (induction us arbitrary: w)
  case Nil
  show ?case
    by (simp add: no_field_retracted_refl)
next
  case (Cons u us)
  from Cons.prems have u: "carries_values u" and us: "\<forall>u\<in>set us. carries_values u"
    by simp_all
  note step = dispatch_step [of w target_id u]
  from step u Cons.prems(2)
  have a: "no_field_retracted (get_traffic_log w target_id ! j)
        (get_traffic_log (dispatch w target_id u) target_id ! j)"
    by blast
  from step Cons.prems(2) have "j < length (get_traffic_log (dispatch w target_id u) target_id)"
    by simp
  from Cons.IH [OF us this]
  have b: "no_field_retracted
        (get_traffic_log (dispatch w target_id u) target_id ! j)
        (get_traffic_log (dispatch_all (dispatch w target_id u) target_id us) target_id ! j)" .
  from no_field_retracted_trans [OF a b] show ?case
    by simp
qed

text \<open>
  Claim C1, as stated, at the first entry of the sample store: after a failure its status
  is the sentinel \<open>0\<close>; a response event without a status, or without a response object
  at all, then sets it back to null.  Line 124 reads the response object with the default
  \<^verbatim>\<open>{}\<close> and line 130 assigns \<^verbatim>\<open>response.get('status')\<close>: the protocol's event types
  require both keys, but they are type hints, and the handler itself provides for their
  absence.
\<close>

theorem status_retracted_counterexample:
  "status (get_traffic_log (on_failure sample_watchdog ''T1'' sample_failure) ''T1'' ! 0) = Some 0
   \<and> status (get_traffic_log
        (on_response (on_failure sample_watchdog ''T1'' sample_failure) ''T1'' bare_response)
        ''T1'' ! 0) = None
   \<and> status (get_traffic_log
        (on_response (on_failure sample_watchdog ''T1'' sample_failure) ''T1''
           \<lparr>rr_requestId = ''r1'', rr_response = None\<rparr>)
        ''T1'' ! 0) = None"
  by (simp add: on_failure_def on_response_def priv_find_entry_def reversed_index_def
        mutate_entry_def get_traffic_log_def apply_failure_def apply_response_def
        sample_watchdog_def sample_log_def sample_entry_def sample_failure_def
        bare_response_def empty_response_def)

text \<open>
  Claim C1, amended.  A response, failure or completion event applied to a target's
  buffer keeps the length of the buffer and, in every entry, leaves every field that its
  handler does not assign as it is; if the event carries the values the handler copies
  unconditionally, as the protocol's event types require (response: status, status text,
  MIME type; failure: error text; completion: encoded data length, timestamp), a field
  that was non-null before the handler ran is non-null after it.  The same holds as such
  events are applied in any order and number: the fields that no handler assigns keep
  their values, and nothing is retracted when every event carries its values.
\<close>

theorem fields_never_retracted:
  "length (get_traffic_log (dispatch w target_id u) target_id)
     = length (get_traffic_log w target_id)
   \<and> (\<forall>j<length (get_traffic_log w target_id).
        untouched_by u (get_traffic_log w target_id ! j)
          (get_traffic_log (dispatch w target_id u) target_id ! j)
        \<and> (carries_values u \<longrightarrow>
             no_field_retracted (get_traffic_log w target_id ! j)
               (get_traffic_log (dispatch w target_id u) target_id ! j)))
   \<and> length (get_traffic_log (dispatch_all w target_id us) target_id)
       = length (get_traffic_log w target_id)
   \<and> (\<forall>j<length (get_traffic_log w target_id).
        never_written_same (get_traffic_log w target_id ! j)
          (get_traffic_log (dispatch_all w target_id us) target_id ! j)
        \<and> ((\<forall>u\<in>set us. carries_values u) \<longrightarrow>
             no_field_retracted (get_traffic_log w target_id ! j)
               (get_traffic_log (dispatch_all w target_id us) target_id ! j)))"
proof (intro conjI allI impI)
  show "length (get_traffic_log (dispatch w target_id u) target_id)
     = length (get_traffic_log w target_id)"
    using dispatch_step [of w target_id u] by (rule conjunct1)
next
  fix j
  assume "j < length (get_traffic_log w target_id)"
  then show "untouched_by u (get_traffic_log w target_id ! j)
          (get_traffic_log (dispatch w target_id u) target_id ! j)"
    using dispatch_step [of w target_id u] by blast
next
  fix j
  assume "j < length (get_traffic_log w target_id)" and "carries_values u"
  then show "no_field_retracted (get_traffic_log w target_id ! j)
               (get_traffic_log (dispatch w target_id u) target_id ! j)"
    using dispatch_step [of w target_id u] by blast
next
  show "length (get_traffic_log (dispatch_all w target_id us) target_id)
       = length (get_traffic_log w target_id)"
    using dispatch_all_same [of w target_id us] by (rule conjunct1)
next
  fix j
  assume "j < length (get_traffic_log w target_id)"
  then show "never_written_same (get_traffic_log w target_id ! j)
          (get_traffic_log (dispatch_all w target_id us) target_id ! j)"
    using dispatch_all_same [of w target_id us] by blast
next
  fix j
  assume "j < length (get_traffic_log w target_id)" and "\<forall>u\<in>set us. carries_values u"
  then show "no_field_retracted (get_traffic_log w target_id ! j)
               (get_traffic_log (dispatch_all w target_id us) target_id ! j)"
    using dispatch_all_monotone [of us j w target_id] by blast
qed

text \<open>
  A failed entry receives a late response, a completion and a second failure: nothing is
  retracted, the URL is as it was, and the status ends as \<open>200\<close>.  The response alone
  leaves the error text of the failure in place.
\<close>

theorem fields_never_retracted_witness:
  "no_field_retracted
     (get_traffic_log (on_failure sample_watchdog ''T1'' sample_failure) ''T1'' ! 0)
     (get_traffic_log
        (dispatch_all (on_failure sample_watchdog ''T1'' sample_failure) ''T1''
           [ResponseReceived (sample_response 200), LoadingFinished sample_finished,
            LoadingFailed sample_failure]) ''T1'' ! 0)
   \<and> status (get_traffic_log
        (dispatch_all (on_failure sample_watchdog ''T1'' sample_failure) ''T1''
           [ResponseReceived (sample_response 200), LoadingFinished sample_finished,
            LoadingFailed sample_failure]) ''T1'' ! 0) = Some 200
   \<and> url (get_traffic_log
        (dispatch_all (on_failure sample_watchdog ''T1'' sample_failure) ''T1''
           [ResponseReceived (sample_response 200), LoadingFinished sample_finished,
            LoadingFailed sample_failure]) ''T1'' ! 0) = ''https://api.example.com/v1/search''
   \<and> error_text (get_traffic_log
        (dispatch (on_failure sample_watchdog ''T1'' sample_failure) ''T1''
           (ResponseReceived (sample_response 200))) ''T1'' ! 0)
       = Some ''net::ERR_CONNECTION_RESET''"
proof -
  let ?w = "on_failure sample_watchdog ''T1'' sample_failure"
  let ?us = "[ResponseReceived (sample_response 200), LoadingFinished sample_finished,
            LoadingFailed sample_failure]"
  let ?final = "get_traffic_log (dispatch_all ?w ''T1'' ?us) ''T1'' ! 0"
  let ?first = "get_traffic_log (dispatch ?w ''T1'' (ResponseReceived (sample_response 200))) ''T1'' ! 0"
  have complete: "\<forall>u\<in>set ?us. carries_values u"
    by (simp add: sample_response_def sample_finished_def sample_failure_def)
  note run = on_failure_def on_response_def on_loading_finished_def priv_find_entry_def
    reversed_index_def mutate_entry_def get_traffic_log_def apply_failure_def
    apply_response_def apply_finished_def sample_watchdog_def sample_log_def sample_entry_def
    sample_failure_def sample_response_def sample_finished_def
  have size: "0 < length (get_traffic_log ?w ''T1'')"
    by (simp add: run)
  note all = fields_never_retracted
      [of ?w "''T1''" "ResponseReceived (sample_response 200)" ?us]
  from all size have one: "untouched_by (ResponseReceived (sample_response 200))
      (get_traffic_log ?w ''T1'' ! 0) ?first"
    by blast
  from all size complete have kept: "no_field_retracted (get_traffic_log ?w ''T1'' ! 0) ?final"
    by blast
  have before: "url (get_traffic_log ?w ''T1'' ! 0) = ''https://api.example.com/v1/search''"
      "error_text (get_traffic_log ?w ''T1'' ! 0) = Some ''net::ERR_CONNECTION_RESET''"
    by (simp_all add: run)
  from kept before(1) have address: "url ?final = ''https://api.example.com/v1/search''"
    by (simp add: no_field_retracted_def never_written_same_def)
  from one before(2) have error: "error_text ?first = Some ''net::ERR_CONNECTION_RESET''"
    by simp
  have final: "status ?final = Some 200"
    by (simp add: run)
  from kept final address error show ?thesis
    by (intro conjI)
qed

section \<open>Response and failure for one request\<close>













end
